theory Spec2Isabelle
  imports Complex_Main "HOL-Library.Log_Nat" "HOL-Library.Sublist"
begin

section \<open>JavaScript numbers\<close>

text \<open>
  Every number of the server is an IEEE 754 double. A finite double is modelled by its
  exact rational value, and every arithmetic operation rounds the exact result to the
  nearest double, ties to even (53 significant bits). The exponent range is not bounded:
  overflow to Infinity and the subnormal range are outside the model, and so are NaN and
  the negative zero. The quantities of the booking flow (time values of dates, day
  counts, prices in whole currency units) stay far inside the normal range.
\<close>

definition ilog2 :: "rat \<Rightarrow> int" where
  "ilog2 x = (let (p, q) = quotient_of x; e = bitlen p - bitlen q
              in if 2 powi e \<le> x then e else e - 1)"

definition round_half_even :: "rat \<Rightarrow> int" where
  "round_half_even m = (let n = \<lfloor>m\<rfloor>; r = m - of_int n in
      if r < 1 / 2 then n else if 1 / 2 < r then n + 1 else if even n then n else n + 1)"

definition double_of :: "rat \<Rightarrow> rat" where
  "double_of x = (if x = 0 then 0 else
     let a = \<bar>x\<bar>; e = ilog2 a; n = round_half_even (a * 2 powi (52 - e))
     in sgn x * of_int n * 2 powi (e - 52))"

definition js_add :: "rat \<Rightarrow> rat \<Rightarrow> rat" where
  "js_add a b = double_of (a + b)"

definition js_sub :: "rat \<Rightarrow> rat \<Rightarrow> rat" where
  "js_sub a b = double_of (a - b)"

definition js_mul :: "rat \<Rightarrow> rat \<Rightarrow> rat" where
  "js_mul a b = double_of (a * b)"

definition js_div :: "rat \<Rightarrow> rat \<Rightarrow> rat" where
  "js_div a b = double_of (a / b)"

definition Math_ceil :: "rat \<Rightarrow> int" where
  "Math_ceil x = \<lceil>x\<rceil>"

text \<open>The literals \<open>0.08\<close> and \<open>1000 * 60 * 60 * 24\<close> of the source.\<close>

definition tax_rate :: rat where
  "tax_rate = double_of (8 / 100)"

definition ms_per_day :: rat where
  "ms_per_day = js_mul (js_mul (js_mul 1000 60) 60) 24"

subsection \<open>Numbers as text\<close>

fun show_nat :: "nat \<Rightarrow> string" where
  "show_nat n = (if n < 10 then [''0123456789'' ! n]
                 else show_nat (n div 10) @ [''0123456789'' ! (n mod 10)])"

declare show_nat.simps [simp del]

definition show_int :: "int \<Rightarrow> string" where
  "show_int i = (if i < 0 then CHR ''-'' # show_nat (nat (- i)) else show_nat (nat i))"

text \<open>
  \<open>Number.prototype.toFixed(2)\<close>: the integer \<open>n\<close> with \<open>n / 100\<close> nearest to the
  value, the larger one on a tie, printed with at least three digits and a point before
  the last two. (Values of \<open>10^21\<close> and more print in exponent form; not modelled.)
\<close>

definition cents :: "rat \<Rightarrow> int" where
  "cents a = \<lfloor>a * 100 + 1 / 2\<rfloor>"

definition toFixed2 :: "rat \<Rightarrow> string" where
  "toFixed2 x =
     (let m = show_nat (nat (cents \<bar>x\<bar>));
          m' = replicate (3 - length m) CHR ''0'' @ m;
          k = length m'
      in (if x < 0 then ''-'' else []) @ take (k - 2) m' @ ''.'' @ drop (k - 2) m')"

section \<open>The inventory store\<close>

text \<open>
  Left out of the model: the mails sent after the save (they neither touch the store
  nor change the response, a failure being caught and logged), and the exceptions of
  the file system and of \<open>JSON.parse\<close>, which the handlers answer with status 500.
\<close>

text \<open>
  \<open>inventory.json\<close> holds \<open>{ cars: [...], bookings: [...] }\<close>. The free-text attributes
  of a car (model, year, seats, transmission, fuel, mileage, features, ...) are kept as
  one association list; its numeric fields are integers (of magnitude below \<open>2^53\<close>, which
  \<open>JSON.parse\<close> reads exactly). Dates are represented by their time value (milliseconds
  since the epoch, what \<open>new Date(s)\<close> yields for the stored string); strings that do
  not parse as a date are outside the model.
\<close>

record car =
  car_id :: int
  name :: string
  attributes :: "(string \<times> string) list"
  price :: int
  quantity :: int
  available :: int
  images :: "string list"

record booking =
  bookingId :: string
  carId :: int
  carName :: string
  firstName :: string
  lastName :: string
  email :: string
  phone :: string
  pickupDate :: int
  returnDate :: int
  pickupLocation :: string
  additionalInfo :: string
  pricePerDay :: int
  days :: int
  subtotal :: rat
  tax :: rat
  total :: rat
  paymentIntentId :: "string option"
  paymentStatus :: string
  bookingDate :: string

record inventory =
  cars :: "car list"
  bookings :: "booking list"

text \<open>
  The file system as far as the server uses it: the content of \<open>inventory.json\<close>
  (\<open>None\<close> while the file does not exist) and counters of the calls of
  \<open>loadInventory\<close> and \<open>saveInventory\<close>. Reads and writes are taken to succeed, and
  the file to hold a well-formed document.
\<close>

record world =
  inventoryFile :: "inventory option"
  loads :: nat
  saves :: nat

definition camry :: car where
  "camry = \<lparr> car_id = 1, name = ''Toyota Camry'',
     attributes = [(''model'', ''Camry''), (''year'', ''2024''), (''seats'', ''5''),
       (''transmission'', ''Automatic''), (''fuel'', ''Gasoline''),
       (''mileage'', ''Unlimited''),
       (''features'', ''Bluetooth, Navigation, Backup Camera, Apple CarPlay'')],
     price = 60, quantity = 1, available = 1, images = [] \<rparr>"

definition rav4 :: car where
  "rav4 = \<lparr> car_id = 2, name = ''Toyota RAV4'',
     attributes = [(''model'', ''RAV4''), (''year'', ''2024''), (''seats'', ''5''),
       (''transmission'', ''Automatic''), (''fuel'', ''Gasoline''),
       (''mileage'', ''Unlimited''),
       (''features'', ''All-Wheel Drive, Apple CarPlay, Safety Sense, Panoramic Roof'')],
     price = 70, quantity = 3, available = 3, images = [] \<rparr>"

definition initialInventory :: inventory where
  "initialInventory = \<lparr> cars = [camry, rav4], bookings = [] \<rparr>"

definition initializeInventory :: "world \<Rightarrow> world" where
  "initializeInventory w =
     (case inventoryFile w of
        None \<Rightarrow> w\<lparr>inventoryFile := Some initialInventory\<rparr>
      | Some _ \<Rightarrow> w)"

definition loadInventory :: "world \<Rightarrow> inventory \<times> world" where
  "loadInventory w =
     (let w' = initializeInventory w
      in ((case inventoryFile w' of None \<Rightarrow> initialInventory | Some iv \<Rightarrow> iv),
          w'\<lparr>loads := Suc (loads w')\<rparr>))"

definition saveInventory :: "inventory \<Rightarrow> world \<Rightarrow> world" where
  "saveInventory iv w = w\<lparr>inventoryFile := Some iv, saves := Suc (saves w)\<rparr>"

text \<open>
  \<open>inventory.cars.find(c => c.id === parseInt(id))\<close> yields the first car with the id,
  and the handlers then assign to fields of that object: the first match is updated in
  place. \<open>parseInt\<close> of the request's id is \<open>None\<close> when it is NaN, which equals no id.
\<close>

definition find_car :: "int option \<Rightarrow> car list \<Rightarrow> car option" where
  "find_car i cs = find (\<lambda>c. Some (car_id c) = i) cs"

fun update_car :: "int option \<Rightarrow> (car \<Rightarrow> car) \<Rightarrow> car list \<Rightarrow> car list" where
  "update_car i f [] = []"
| "update_car i f (c # cs) =
     (if Some (car_id c) = i then f c # cs else c # update_car i f cs)"

section \<open>Pricing\<close>

text \<open>
  The pricing lines of the booking handler (\<open>days\<close>, \<open>subtotal\<close>, \<open>tax\<close>, \<open>total\<close>);
  the same four lines stand in the payment-intent handler and, on the fields of a
  booking, in the invoice renderer of the first server. \<open>pickup\<close> and \<open>returnD\<close> are
  the time values of the two \<open>Date\<close> objects.
\<close>

definition rental_days :: "int \<Rightarrow> int \<Rightarrow> int" where
  "rental_days pickup returnD =
     Math_ceil (js_div (js_sub (of_int returnD) (of_int pickup)) ms_per_day)"

definition pricing :: "int \<Rightarrow> int \<Rightarrow> int \<Rightarrow> int \<times> rat \<times> rat \<times> rat" where
  "pricing pickup returnD rate =
     (let d = rental_days pickup returnD;
          sub = js_mul (of_int d) (of_int rate);
          tx = js_mul sub tax_rate;
          tot = js_add sub tx
      in (d, sub, tx, tot))"

section \<open>Creating a booking (first server, with payment verification)\<close>

text \<open>
  What one call of the handler reads from outside the request and the store: the clock,
  twice (\<open>Date.now()\<close> for the booking id, before the payment is verified, and
  \<open>new Date().toISOString()\<close> for the booking date, after it), whether
  \<open>stripe && process.env.STRIPE_SECRET_KEY\<close> holds, and the payment collaborator
  (\<open>None\<close> when \<open>stripe.paymentIntents.retrieve\<close> throws, else the status of the intent).
\<close>

record env =
  Date_now :: int
  toISOString_now :: string
  stripe_configured :: bool
  paymentIntents_retrieve :: "string \<Rightarrow> string option"

text \<open>
  The request body. \<open>rq_carId\<close> is \<open>parseInt(carId)\<close>, with \<open>None\<close> for NaN; a text
  field holds the string that was sent (a body that leaves a text field out is outside
  the model); the payment reference is \<open>None\<close> when it is missing.
\<close>

record request =
  rq_carId :: "int option"
  rq_firstName :: string
  rq_lastName :: string
  rq_email :: string
  rq_phone :: string
  rq_pickupDate :: int
  rq_returnDate :: int
  rq_pickupLocation :: string
  rq_additionalInfo :: string
  rq_paymentIntentId :: "string option"

datatype response =
    Booked booking
  | CarNotFound
  | CarUnavailable
  | InvalidDateRange
  | PaymentNotCompleted
  | PaymentVerificationFailed
  | ValidationFailed

definition truthy :: "string option \<Rightarrow> bool" where
  "truthy p = (case p of None \<Rightarrow> False | Some s \<Rightarrow> s \<noteq> [])"

definition verify_payment :: "env \<Rightarrow> string option \<Rightarrow> response + string" where
  "verify_payment ev pid =
     (case pid of
        None \<Rightarrow> Inr ''pending''
      | Some ref \<Rightarrow>
          if ref \<noteq> [] \<and> stripe_configured ev then
            (case paymentIntents_retrieve ev ref of
               None \<Rightarrow> Inl PaymentVerificationFailed
             | Some status \<Rightarrow>
                 if status \<noteq> ''succeeded'' then Inl PaymentNotCompleted else Inr status)
          else Inr ''pending'')"

text \<open>The object literal \<open>booking\<close> of the handler.\<close>

definition new_booking ::
  "env \<Rightarrow> request \<Rightarrow> car \<Rightarrow> int \<times> rat \<times> rat \<times> rat \<Rightarrow> string \<Rightarrow> booking" where
  "new_booking ev rq c priced status =
     (case priced of (d, sub, tx, tot) \<Rightarrow>
       \<lparr> bookingId = ''BK'' @ show_int (Date_now ev),
         carId = car_id c, carName = name c,
         firstName = rq_firstName rq, lastName = rq_lastName rq,
         email = rq_email rq, phone = rq_phone rq,
         pickupDate = rq_pickupDate rq, returnDate = rq_returnDate rq,
         pickupLocation = rq_pickupLocation rq,
         additionalInfo = rq_additionalInfo rq,
         pricePerDay = price c, days = d, subtotal = sub, tax = tx, total = tot,
         paymentIntentId =
           (if truthy (rq_paymentIntentId rq) then rq_paymentIntentId rq else None),
         paymentStatus = status,
         bookingDate = toISOString_now ev \<rparr>)"

text \<open>
  The handler, run from its load to its save with no other handler in between. This is
  exact for a call that is not suspended on the way; the next section splits the handler
  at the point where it can be.
\<close>

definition post_bookings :: "env \<Rightarrow> request \<Rightarrow> world \<Rightarrow> response \<times> world" where
  "post_bookings ev rq w =
     (let (iv, w1) = loadInventory w in
      case find_car (rq_carId rq) (cars iv) of
        None \<Rightarrow> (CarNotFound, w1)
      | Some c \<Rightarrow>
          if available c \<le> 0 then (CarUnavailable, w1)
          else if rq_returnDate rq \<le> rq_pickupDate rq then (InvalidDateRange, w1)
          else
            let priced = pricing (rq_pickupDate rq) (rq_returnDate rq) (price c)
            in (case verify_payment ev (rq_paymentIntentId rq) of
                 Inl err \<Rightarrow> (err, w1)
               | Inr status \<Rightarrow>
                   let b = new_booking ev rq c priced status;
                       iv' = iv\<lparr>cars := update_car (rq_carId rq)
                                          (\<lambda>k. k\<lparr>available := available k - 1\<rparr>) (cars iv),
                                 bookings := bookings iv @ [b]\<rparr>
                   in (Booked b, saveInventory iv' w1)))"

section \<open>The booking handler in two steps\<close>

text \<open>
  The handler is an \<open>async\<close> function. It runs without interruption up to its one
  \<open>await\<close> on the way to the save, the query of the payment collaborator, which it
  reaches only with a payment reference and a configured Stripe key; there it is
  suspended, holding the inventory it has loaded, and other handlers may run before it
  resumes. \<open>post_bookings_begin\<close> is the handler up to that point (or to its end, when
  it never gets there), \<open>post_bookings_resume\<close> the rest, run on the world as it is
  by then. Both steps of a call take the same \<open>env\<close>, the readings of that call.
\<close>

record pending =
  pd_request :: request
  pd_inventory :: inventory
  pd_car :: car
  pd_priced :: "int \<times> rat \<times> rat \<times> rat"
  pd_reference :: string

datatype progress = Responded response | Awaiting pending

definition post_bookings_complete ::
  "env \<Rightarrow> request \<Rightarrow> inventory \<Rightarrow> car \<Rightarrow> int \<times> rat \<times> rat \<times> rat \<Rightarrow> string \<Rightarrow> world \<Rightarrow>
     response \<times> world" where
  "post_bookings_complete ev rq iv c priced status w =
     (let b = new_booking ev rq c priced status;
          iv' = iv\<lparr>cars := update_car (rq_carId rq)
                             (\<lambda>k. k\<lparr>available := available k - 1\<rparr>) (cars iv),
                    bookings := bookings iv @ [b]\<rparr>
      in (Booked b, saveInventory iv' w))"

definition post_bookings_begin :: "env \<Rightarrow> request \<Rightarrow> world \<Rightarrow> progress \<times> world" where
  "post_bookings_begin ev rq w =
     (let (iv, w1) = loadInventory w in
      case find_car (rq_carId rq) (cars iv) of
        None \<Rightarrow> (Responded CarNotFound, w1)
      | Some c \<Rightarrow>
          if available c \<le> 0 then (Responded CarUnavailable, w1)
          else if rq_returnDate rq \<le> rq_pickupDate rq then (Responded InvalidDateRange, w1)
          else
            let priced = pricing (rq_pickupDate rq) (rq_returnDate rq) (price c);
                finished = (case post_bookings_complete ev rq iv c priced ''pending'' w1 of
                              (r, w2) \<Rightarrow> (Responded r, w2))
            in (case rq_paymentIntentId rq of
                  None \<Rightarrow> finished
                | Some ref \<Rightarrow>
                    if ref \<noteq> [] \<and> stripe_configured ev then
                      (Awaiting \<lparr> pd_request = rq, pd_inventory = iv, pd_car = c,
                                  pd_priced = priced, pd_reference = ref \<rparr>, w1)
                    else finished))"

definition post_bookings_resume :: "env \<Rightarrow> pending \<Rightarrow> world \<Rightarrow> response \<times> world" where
  "post_bookings_resume ev p w =
     (case paymentIntents_retrieve ev (pd_reference p) of
        None \<Rightarrow> (PaymentVerificationFailed, w)
      | Some status \<Rightarrow>
          if status \<noteq> ''succeeded'' then (PaymentNotCompleted, w)
          else post_bookings_complete ev (pd_request p) (pd_inventory p) (pd_car p)
                 (pd_priced p) status w)"

text \<open>
  Two calls A and B, interleaved: A begins, B begins, A resumes, B resumes. A call
  that has responded in its first step has nothing left to do.
\<close>

definition finish_call :: "env \<Rightarrow> progress \<Rightarrow> world \<Rightarrow> response \<times> world" where
  "finish_call ev pr w =
     (case pr of Responded r \<Rightarrow> (r, w) | Awaiting p \<Rightarrow> post_bookings_resume ev p w)"

definition two_calls_interleaved ::
  "env \<Rightarrow> request \<Rightarrow> env \<Rightarrow> request \<Rightarrow> world \<Rightarrow> response \<times> response \<times> world" where
  "two_calls_interleaved evA rqA evB rqB w =
     (let (pa, w1) = post_bookings_begin evA rqA w;
          (pb, w2) = post_bookings_begin evB rqB w1;
          (ra, w3) = finish_call evA pa w2;
          (rb, w4) = finish_call evB pb w3
      in (ra, rb, w4))"

text \<open>Calls that run one after the other, each to its end.\<close>

fun run_serial :: "(env \<times> request) list \<Rightarrow> world \<Rightarrow> response list \<times> world" where
  "run_serial [] w = ([], w)"
| "run_serial ((ev, rq) # calls) w =
     (case post_bookings ev rq w of
        (r, w1) \<Rightarrow> (case run_serial calls w1 of (rs, w2) \<Rightarrow> (r # rs, w2)))"

definition is_Booked :: "response \<Rightarrow> bool" where
  "is_Booked r = (case r of Booked _ \<Rightarrow> True | _ \<Rightarrow> False)"

text \<open>A list of responses in which every call after the first success is refused.\<close>

fun one_then_unavailable :: "response list \<Rightarrow> bool" where
  "one_then_unavailable [] = True"
| "one_then_unavailable (r # rs) =
     (if is_Booked r then list_all (\<lambda>x. x = CarUnavailable) rs else one_then_unavailable rs)"

section \<open>Administration of the first server\<close>

text \<open>
  \<open>PUT /api/cars/:id/availability\<close>. A field of the body is \<open>None\<close> when it is
  \<open>undefined\<close> and else carries what \<open>parseInt\<close> makes of it; bodies on which
  \<open>parseInt\<close> yields NaN are outside the model.
\<close>

record availability_body =
  body_available :: "int option"
  body_quantity :: "int option"

datatype put_response = Updated car | PutCarNotFound | PutBadRequest

definition set_availability :: "availability_body \<Rightarrow> car \<Rightarrow> car" where
  "set_availability body c =
     (let c1 = (case body_available body of
                  None \<Rightarrow> c
                | Some a \<Rightarrow> c\<lparr>available := max 0 (min (quantity c) a)\<rparr>)
      in case body_quantity body of
           None \<Rightarrow> c1
         | Some newQuantity \<Rightarrow>
             c1\<lparr>quantity := newQuantity, available := min (available c1) newQuantity\<rparr>)"

definition put_availability ::
  "int option \<Rightarrow> availability_body \<Rightarrow> world \<Rightarrow> put_response \<times> world" where
  "put_availability i body w =
     (let (iv, w1) = loadInventory w in
      case find_car i (cars iv) of
        None \<Rightarrow> (PutCarNotFound, w1)
      | Some c \<Rightarrow>
          (Updated (set_availability body c),
           saveInventory (iv\<lparr>cars := update_car i (set_availability body) (cars iv)\<rparr>) w1))"

text \<open>
  \<open>POST /api/cars/:id/images\<close>, after the upload middleware has stored the files:
  \<open>files\<close> are their names.
\<close>

datatype images_response = ImagesUploaded "string list" | ImagesCarNotFound | NoImagesUploaded

definition post_images ::
  "int option \<Rightarrow> string list \<Rightarrow> world \<Rightarrow> images_response \<times> world" where
  "post_images i files w =
     (let (iv, w1) = loadInventory w in
      case find_car i (cars iv) of
        None \<Rightarrow> (ImagesCarNotFound, w1)
      | Some c \<Rightarrow>
          if files = [] then (NoImagesUploaded, w1)
          else (ImagesUploaded (images c @ files),
                saveInventory
                  (iv\<lparr>cars := update_car i (\<lambda>k. k\<lparr>images := images k @ files\<rparr>) (cars iv)\<rparr>)
                  w1))"

section \<open>The availability invariant\<close>

definition availability_ok :: "car \<Rightarrow> bool" where
  "availability_ok c = (0 \<le> available c \<and> available c \<le> quantity c)"

definition store_ok :: "inventory \<Rightarrow> bool" where
  "store_ok iv = list_all availability_ok (cars iv)"

section \<open>The second server (script.js)\<close>

text \<open>Its store starts from a shorter catalogue.\<close>

definition script_initialInventory :: inventory where
  "script_initialInventory =
     \<lparr> cars = [
         \<lparr> car_id = 1, name = ''Toyota Camry'', attributes = [], price = 60, quantity = 1,
           available = 1, images = [] \<rparr>,
         \<lparr> car_id = 2, name = ''Toyota RAV4'', attributes = [], price = 70, quantity = 3,
           available = 3, images = [] \<rparr>],
       bookings = [] \<rparr>"

definition script_initializeInventory :: "world \<Rightarrow> world" where
  "script_initializeInventory w =
     (case inventoryFile w of
        None \<Rightarrow> w\<lparr>inventoryFile := Some script_initialInventory\<rparr>
      | Some _ \<Rightarrow> w)"

definition script_loadInventory :: "world \<Rightarrow> inventory \<times> world" where
  "script_loadInventory w =
     (let w' = script_initializeInventory w
      in ((case inventoryFile w' of None \<Rightarrow> script_initialInventory | Some iv \<Rightarrow> iv),
          w'\<lparr>loads := Suc (loads w')\<rparr>))"

text \<open>
  The second server validates a booking request with an express-validator chain before
  its handler runs. What the chain takes from the validator library is a parameter:
  \<open>isEmail\<close>, \<open>normalizeEmail\<close> and \<open>escape\<close>. \<open>trim\<close>, \<open>isLength\<close> and the pattern of
  the phone number are spelled out (on ASCII text).
\<close>

record validator =
  isEmail :: "string \<Rightarrow> bool"
  normalizeEmail :: "string \<Rightarrow> string"
  escape :: "string \<Rightarrow> string"

definition is_space :: "char \<Rightarrow> bool" where
  "is_space ch = (ch \<in> set [CHR 0x20, CHR 0x09, CHR 0x0A, CHR 0x0B, CHR 0x0C, CHR 0x0D])"

definition trim :: "string \<Rightarrow> string" where
  "trim s = rev (dropWhile is_space (rev (dropWhile is_space s)))"

definition isLength :: "nat \<Rightarrow> nat \<Rightarrow> string \<Rightarrow> bool" where
  "isLength lo hi s = (lo \<le> length s \<and> length s \<le> hi)"

text \<open>The pattern \<open>/^[\d\s\-\+\(\)]+$/\<close>.\<close>

definition phone_char :: "char \<Rightarrow> bool" where
  "phone_char ch = (ch \<in> set ''0123456789-+()'' \<or> is_space ch)"

definition matches_phone :: "string \<Rightarrow> bool" where
  "matches_phone s = (s \<noteq> [] \<and> list_all phone_char s)"

text \<open>
  The body as it arrives. \<open>raw_carId\<close> is \<open>None\<close> unless the value is an integer (then
  \<open>isInt\<close> and \<open>parseInt\<close> agree on it); a date is \<open>None\<close> unless it is an ISO 8601
  date (then it carries the time value); \<open>raw_additionalInfo\<close> is \<open>None\<close> when the
  optional field is absent.
\<close>

record raw_request =
  raw_carId :: "int option"
  raw_firstName :: string
  raw_lastName :: string
  raw_email :: string
  raw_phone :: string
  raw_pickupDate :: "int option"
  raw_returnDate :: "int option"
  raw_pickupLocation :: string
  raw_additionalInfo :: "string option"

definition valid_request :: "validator \<Rightarrow> raw_request \<Rightarrow> bool" where
  "valid_request lib r =
     ((case raw_carId r of None \<Rightarrow> False | Some i \<Rightarrow> 1 \<le> i) \<and>
      isLength 1 50 (trim (raw_firstName r)) \<and>
      isLength 1 50 (trim (raw_lastName r)) \<and>
      isEmail lib (raw_email r) \<and>
      matches_phone (trim (raw_phone r)) \<and> isLength 10 20 (trim (raw_phone r)) \<and>
      raw_pickupDate r \<noteq> None \<and>
      raw_returnDate r \<noteq> None \<and>
      isLength 1 100 (trim (raw_pickupLocation r)) \<and>
      (case raw_additionalInfo r of None \<Rightarrow> True | Some a \<Rightarrow> isLength 0 500 (trim a)))"

text \<open>The body after the sanitizers of the chain; read only when the request is valid.\<close>

definition sanitized :: "validator \<Rightarrow> raw_request \<Rightarrow> request" where
  "sanitized lib r =
     \<lparr> rq_carId = raw_carId r,
       rq_firstName = escape lib (trim (raw_firstName r)),
       rq_lastName = escape lib (trim (raw_lastName r)),
       rq_email = normalizeEmail lib (raw_email r),
       rq_phone = trim (raw_phone r),
       rq_pickupDate = (case raw_pickupDate r of None \<Rightarrow> 0 | Some t \<Rightarrow> t),
       rq_returnDate = (case raw_returnDate r of None \<Rightarrow> 0 | Some t \<Rightarrow> t),
       rq_pickupLocation = escape lib (trim (raw_pickupLocation r)),
       rq_additionalInfo =
         (case raw_additionalInfo r of None \<Rightarrow> [] | Some a \<Rightarrow> escape lib (trim a)),
       rq_paymentIntentId = None \<rparr>"

text \<open>
  The handler behind the chain. Its booking literal has the fields of the first
  server's but for the payment reference; \<open>carId\<close> is \<open>parseInt(carId)\<close>, which is the
  id of the car found, and the payment status is always \<open>pending\<close>. The booking is
  appended first, then \<open>available\<close> is lowered, not below zero.
\<close>

definition script_post_bookings ::
  "validator \<Rightarrow> env \<Rightarrow> raw_request \<Rightarrow> world \<Rightarrow> response \<times> world" where
  "script_post_bookings lib ev r w =
     (if \<not> valid_request lib r then (ValidationFailed, w)
      else
        let rq = sanitized lib r;
            (iv, w1) = script_loadInventory w in
        case find_car (rq_carId rq) (cars iv) of
          None \<Rightarrow> (CarNotFound, w1)
        | Some c \<Rightarrow>
            if available c \<le> 0 then (CarUnavailable, w1)
            else
              let d = rental_days (rq_pickupDate rq) (rq_returnDate rq) in
              if d \<le> 0 then (InvalidDateRange, w1)
              else
                let sub = js_mul (of_int (price c)) (of_int d);
                    tx = js_mul sub tax_rate;
                    tot = js_add sub tx;
                    b = new_booking ev rq c (d, sub, tx, tot) ''pending'';
                    iv1 = iv\<lparr>bookings := bookings iv @ [b]\<rparr>;
                    iv2 = iv1\<lparr>cars := update_car (rq_carId rq)
                             (\<lambda>k. k\<lparr>available := max 0 (available k - 1)\<rparr>) (cars iv1)\<rparr>
                in (Booked b, saveInventory iv2 w1))"

text \<open>
  \<open>PUT /api/cars/:id/availability\<close> of the second server. A field of the body is
  \<open>None\<close> unless it is a number (\<open>typeof\<close>); numbers that are not integers are outside
  the model.
\<close>

definition script_put_availability ::
  "int option \<Rightarrow> availability_body \<Rightarrow> world \<Rightarrow> put_response \<times> world" where
  "script_put_availability i body w =
     (case (body_available body, body_quantity body) of
        (Some a, Some q) \<Rightarrow>
          if a < 0 \<or> q < 0 then (PutBadRequest, w)
          else if q < a then (PutBadRequest, w)
          else
            let (iv, w1) = script_loadInventory w in
            (case find_car i (cars iv) of
               None \<Rightarrow> (PutCarNotFound, w1)
             | Some c \<Rightarrow>
                 (Updated (c\<lparr>available := a, quantity := q\<rparr>),
                  saveInventory
                    (iv\<lparr>cars := update_car i (\<lambda>k. k\<lparr>available := a, quantity := q\<rparr>) (cars iv)\<rparr>)
                    w1))
      | _ \<Rightarrow> (PutBadRequest, w))"

section \<open>Invoices\<close>

text \<open>
  \<open>generateInvoiceHTML\<close> is one template literal. It is modelled as the list of its
  pieces, in order: each line of static markup, and each interpolated value. The
  indentation and the line breaks of the template are left out. How a date prints
  (\<open>toLocaleDateString\<close>) depends on the locale of the host and is a parameter.
  The first server computes the four priced values again, from the dates and the daily
  rate of the booking, by the pricing lines of the booking handler.
\<close>

definition invoice_head :: "string list" where
  \<open>invoice_head =
     [''<!DOCTYPE html>'',
      ''<html>'',
      ''<head>'',
      ''<style>'',
      ''body { font-family: Arial, sans-serif; line-height: 1.6; color: #333; }'',
      ''.container { max-width: 600px; margin: 0 auto; padding: 20px; }'',
      ''.header { background: linear-gradient(135deg, #667eea 0%, #764ba2 100%); color: white; padding: 30px; text-align: center; border-radius: 10px 10px 0 0; }'',
      ''.content { background: #f9f9f9; padding: 30px; border-radius: 0 0 10px 10px; }'',
      ''.invoice-details { background: white; padding: 20px; border-radius: 8px; margin: 20px 0; }'',
      ''.detail-row { display: flex; justify-content: space-between; padding: 10px 0; border-bottom: 1px solid #eee; }'',
      ''.detail-row:last-child { border-bottom: none; }'',
      ''.total { font-size: 1.5em; font-weight: bold; color: #667eea; margin-top: 20px; }'',
      ''.footer { text-align: center; margin-top: 30px; color: #666; font-size: 0.9em; }'',
      ''</style>'',
      ''</head>'',
      ''<body>'']\<close>

definition invoice_greeting :: "booking \<Rightarrow> string list" where
  \<open>invoice_greeting booking =
     [''<div class="container">'',
      ''<div class="header">'',
      ''<h1>ES Dynamic Rentals</h1>'',
      ''<p>Booking Confirmation & Invoice</p>'',
      ''</div>'',
      ''<div class="content">'',
      ''<h2>Thank you for your booking, '',
      firstName booking,
      ''!</h2>'',
      ''<p>Your reservation has been confirmed. Below are your booking details:</p>'']\<close>

definition invoice_booking_information :: "(int \<Rightarrow> string) \<Rightarrow> booking \<Rightarrow> int \<Rightarrow> string list" where
  \<open>invoice_booking_information toLocaleDateString booking d =
     [''<div class="invoice-details">'',
      ''<h3>Booking Information</h3>'',
      ''<div class="detail-row">'',
      ''<span><strong>Booking ID:</strong></span>'',
      ''<span>#'',
      bookingId booking,
      ''</span>'',
      ''</div>'',
      ''<div class="detail-row">'',
      ''<span><strong>Vehicle:</strong></span>'',
      ''<span>'',
      carName booking,
      ''</span>'',
      ''</div>'',
      ''<div class="detail-row">'',
      ''<span><strong>Pickup Date:</strong></span>'',
      ''<span>'',
      toLocaleDateString (pickupDate booking),
      ''</span>'',
      ''</div>'',
      ''<div class="detail-row">'',
      ''<span><strong>Return Date:</strong></span>'',
      ''<span>'',
      toLocaleDateString (returnDate booking),
      ''</span>'',
      ''</div>'',
      ''<div class="detail-row">'',
      ''<span><strong>Rental Period:</strong></span>'',
      ''<span>'',
      show_int d,
      '' day(s)</span>'',
      ''</div>'',
      ''<div class="detail-row">'',
      ''<span><strong>Pickup Location:</strong></span>'',
      ''<span>'',
      pickupLocation booking,
      ''</span>'',
      ''</div>'',
      ''</div>'']\<close>

definition invoice_customer_information :: "booking \<Rightarrow> string list" where
  \<open>invoice_customer_information booking =
     [''<div class="invoice-details">'',
      ''<h3>Customer Information</h3>'',
      ''<div class="detail-row">'',
      ''<span><strong>Name:</strong></span>'',
      ''<span>'',
      firstName booking,
      '' '',
      lastName booking,
      ''</span>'',
      ''</div>'',
      ''<div class="detail-row">'',
      ''<span><strong>Email:</strong></span>'',
      ''<span>'',
      email booking,
      ''</span>'',
      ''</div>'',
      ''<div class="detail-row">'',
      ''<span><strong>Phone:</strong></span>'',
      ''<span>'',
      phone booking,
      ''</span>'',
      ''</div>'',
      ''</div>'']\<close>

definition invoice_pricing :: "booking \<Rightarrow> int \<Rightarrow> rat \<Rightarrow> rat \<Rightarrow> rat \<Rightarrow> string list" where
  \<open>invoice_pricing booking d sub tx tot =
     [''<div class="invoice-details">'',
      ''<h3>Pricing</h3>'',
      ''<div class="detail-row">'',
      ''<span>Daily Rate:</span>'',
      ''<span>$'',
      show_int (pricePerDay booking),
      ''/day</span>'',
      ''</div>'',
      ''<div class="detail-row">'',
      ''<span>Rental Days:</span>'',
      ''<span>'',
      show_int d,
      '' day(s)</span>'',
      ''</div>'',
      ''<div class="detail-row">'',
      ''<span>Subtotal:</span>'',
      ''<span>$'',
      toFixed2 sub,
      ''</span>'',
      ''</div>'',
      ''<div class="detail-row">'',
      ''<span>Tax (8%):</span>'',
      ''<span>$'',
      toFixed2 tx,
      ''</span>'',
      ''</div>'',
      ''<div class="detail-row total">'',
      ''<span>Total:</span>'',
      ''<span>$'',
      toFixed2 tot,
      ''</span>'',
      ''</div>'',
      ''</div>'']\<close>

definition invoice_additional_information :: "booking \<Rightarrow> string list" where
  \<open>invoice_additional_information booking =
     (if additionalInfo booking \<noteq> [] then
     [''<div class="invoice-details">'',
      ''<h3>Additional Information</h3>'',
      ''<p>'',
      additionalInfo booking,
      ''</p>'',
      ''</div>'']
      else [])\<close>

definition invoice_footer :: "string list" where
  \<open>invoice_footer =
     [''<div class="footer">'',
      ''<p><strong>ES Dynamic Rentals</strong></p>'',
      ''<p>1460 South Canton Avenue, Tulsa, Oklahoma 74137</p>'',
      ''<p>Phone: 918-204-8691 | Email: esdyamicrental@gmail.com</p>'',
      ''<p>Please arrive 15 minutes before your scheduled pickup time.</p>'',
      ''</div>'',
      ''</div>'',
      ''</div>'',
      ''</body>'',
      ''</html>'']\<close>

definition invoice_pieces :: "(int \<Rightarrow> string) \<Rightarrow> booking \<Rightarrow> string list" where
  "invoice_pieces toLocaleDateString booking =
     (case pricing (pickupDate booking) (returnDate booking) (pricePerDay booking) of
        (d, sub, tx, tot) \<Rightarrow>
          invoice_head @ invoice_greeting booking @
          invoice_booking_information toLocaleDateString booking d @
          invoice_customer_information booking @
          invoice_pricing booking d sub tx tot @
          invoice_additional_information booking @
          invoice_footer)"

definition generateInvoiceHTML :: "(int \<Rightarrow> string) \<Rightarrow> booking \<Rightarrow> string" where
  "generateInvoiceHTML toLocaleDateString booking =
     concat (invoice_pieces toLocaleDateString booking)"

text \<open>\<open>escapeHtml\<close> and the invoice of the second server.\<close>

definition escapeHtml_map :: "char \<Rightarrow> string" where
  "escapeHtml_map ch =
     (if ch = CHR ''&'' then ''&amp;''
      else if ch = CHR ''<'' then ''&lt;''
      else if ch = CHR ''>'' then ''&gt;''
      else if ch = CHR 0x22 then ''&quot;''
      else if ch = CHR 0x27 then ''&#039;''
      else [ch])"

definition escapeHtml :: "string \<Rightarrow> string" where
  "escapeHtml text = concat (map escapeHtml_map text)"

definition script_invoice_head :: "string list" where
  \<open>script_invoice_head =
     [''<!DOCTYPE html>'',
      ''<html>'',
      ''<head>'',
      ''<meta charset="UTF-8">'',
      ''<style>'',
      ''body { font-family: Arial, sans-serif; line-height: 1.6; color: #333; }'',
      ''.container { max-width: 600px; margin: 0 auto; padding: 20px; }'',
      ''.header { background: linear-gradient(135deg, #667eea 0%, #764ba2 100%); color: white; padding: 30px; text-align: center; border-radius: 10px 10px 0 0; }'',
      ''.content { background: #f8f9fa; padding: 30px; border-radius: 0 0 10px 10px; }'',
      ''.invoice-details { background: white; padding: 20px; border-radius: 8px; margin: 20px 0; }'',
      ''.detail-row { display: flex; justify-content: space-between; padding: 10px 0; border-bottom: 1px solid #e0e0e0; }'',
      ''.detail-row:last-child { border-bottom: none; }'',
      ''.label { font-weight: 600; color: #667eea; }'',
      ''.total { font-size: 1.3em; font-weight: 700; color: #667eea; margin-top: 20px; padding-top: 20px; border-top: 2px solid #667eea; }'',
      ''.footer { text-align: center; margin-top: 30px; color: #666; font-size: 0.9em; }'',
      ''</style>'',
      ''</head>'',
      ''<body>'',
      ''<div class="container">'',
      ''<div class="header">'',
      ''<h1>ES Dynamic Rentals</h1>'',
      ''<h2>Booking Invoice</h2>'',
      ''</div>'',
      ''<div class="content">'']\<close>

definition script_invoice_details :: "(int \<Rightarrow> string) \<Rightarrow> booking \<Rightarrow> string list" where
  \<open>script_invoice_details toLocaleDateString booking =
     [''<div class="invoice-details">'',
      ''<div class="detail-row">'',
      ''<span class="label">Booking ID:</span>'',
      ''<span>'',
      bookingId booking,
      ''</span>'',
      ''</div>'',
      ''<div class="detail-row">'',
      ''<span class="label">Customer Name:</span>'',
      ''<span>'',
      firstName booking,
      '' '',
      lastName booking,
      ''</span>'',
      ''</div>'',
      ''<div class="detail-row">'',
      ''<span class="label">Email:</span>'',
      ''<span>'',
      email booking,
      ''</span>'',
      ''</div>'',
      ''<div class="detail-row">'',
      ''<span class="label">Phone:</span>'',
      ''<span>'',
      phone booking,
      ''</span>'',
      ''</div>'',
      ''<div class="detail-row">'',
      ''<span class="label">Car:</span>'',
      ''<span>'',
      carName booking,
      ''</span>'',
      ''</div>'',
      ''<div class="detail-row">'',
      ''<span class="label">Pickup Date:</span>'',
      ''<span>'',
      toLocaleDateString (pickupDate booking),
      ''</span>'',
      ''</div>'',
      ''<div class="detail-row">'',
      ''<span class="label">Return Date:</span>'',
      ''<span>'',
      toLocaleDateString (returnDate booking),
      ''</span>'',
      ''</div>'',
      ''<div class="detail-row">'',
      ''<span class="label">Rental Period:</span>'',
      ''<span>'',
      show_int (days booking),
      '' day(s)</span>'',
      ''</div>'',
      ''<div class="detail-row">'',
      ''<span class="label">Pickup Location:</span>'',
      ''<span>1460 South Canton Avenue, Tulsa, Oklahoma 74137</span>'',
      ''</div>'']\<close>

definition script_invoice_additional_info :: "booking \<Rightarrow> string list" where
  \<open>script_invoice_additional_info booking =
     (if additionalInfo booking \<noteq> [] then
     [''<div class="detail-row">'',
      ''<span class="label">Additional Info:</span>'',
      ''<span>'',
      escapeHtml (additionalInfo booking),
      ''</span>'',
      ''</div>'']
      else [])\<close>

definition script_invoice_pricing :: "booking \<Rightarrow> string list" where
  \<open>script_invoice_pricing booking =
     [''<div class="detail-row">'',
      ''<span class="label">Price per Day:</span>'',
      ''<span>$'',
      toFixed2 (of_int (pricePerDay booking)),
      ''</span>'',
      ''</div>'',
      ''<div class="detail-row">'',
      ''<span class="label">Subtotal ('',
      show_int (days booking),
      '' days):</span>'',
      ''<span>$'',
      toFixed2 (subtotal booking),
      ''</span>'',
      ''</div>'',
      ''<div class="detail-row">'',
      ''<span class="label">Tax (8%):</span>'',
      ''<span>$'',
      toFixed2 (tax booking),
      ''</span>'',
      ''</div>'',
      ''<div class="total detail-row">'',
      ''<span>Total Amount:</span>'',
      ''<span>$'',
      toFixed2 (total booking),
      ''</span>'',
      ''</div>'',
      ''</div>'']\<close>

definition script_invoice_footer :: "string list" where
  \<open>script_invoice_footer =
     [''<div style="background: #fff3cd; border: 2px solid #ffc107; border-radius: 8px; padding: 15px; margin: 20px 0;">'',
      ''<p style="margin: 0; color: #856404; font-weight: 600; font-size: 1rem;">'',
      ([CHR 0xE2, CHR 0x9A, CHR 0xA0] @ [CHR 0xEF, CHR 0xB8, CHR 0x8F] @ '' Payment Required at Pickup''),
      ''</p>'',
      ''<p style="margin: 8px 0 0 0; color: #856404; font-size: 0.95rem;">'',
      ''This is a reservation confirmation. Payment must be completed at our location when you pick up the vehicle. Please bring a valid ID and payment method.'',
      ''</p>'',
      ''</div>'',
      ''<div class="footer">'',
      ''<p>Thank you for choosing ES Dynamic Rentals!</p>'',
      ''<p>For any questions, contact us at:<br>'',
      ''Phone: 918-204-8691<br>'',
      ''Email: esdynamicrental@gmail.com</p>'',
      ''</div>'',
      ''</div>'',
      ''</div>'',
      ''</body>'',
      ''</html>'']\<close>

definition script_invoice_pieces :: "(int \<Rightarrow> string) \<Rightarrow> booking \<Rightarrow> string list" where
  "script_invoice_pieces toLocaleDateString booking =
     script_invoice_head @ script_invoice_details toLocaleDateString booking @
     script_invoice_additional_info booking @ script_invoice_pricing booking @
     script_invoice_footer"

definition script_generateInvoiceHTML :: "(int \<Rightarrow> string) \<Rightarrow> booking \<Rightarrow> string" where
  "script_generateInvoiceHTML toLocaleDateString booking =
     concat (script_invoice_pieces toLocaleDateString booking)"

section \<open>Example inputs\<close>

definition ev0 :: env where
  "ev0 = \<lparr> Date_now = 1717000000000, toISOString_now = ''2024-05-29T16:26:40.000Z'',
           stripe_configured = False, paymentIntents_retrieve = (\<lambda>_. None) \<rparr>"

definition rq0 :: request where
  "rq0 = \<lparr> rq_carId = Some 2, rq_firstName = ''Ada'', rq_lastName = ''Obi'',
           rq_email = ''ada@example.com'', rq_phone = ''918-204-8691'',
           rq_pickupDate = 1717200000000, rq_returnDate = 1717459200000,
           rq_pickupLocation = ''Tulsa'', rq_additionalInfo = [],
           rq_paymentIntentId = None \<rparr>"

definition w0 :: world where
  "w0 = \<lparr> inventoryFile = Some initialInventory, loads = 0, saves = 0 \<rparr>"

definition sold_out :: inventory where
  "sold_out = initialInventory\<lparr>cars :=
     map (\<lambda>c. c\<lparr>available := 0\<rparr>) (cars initialInventory)\<rparr>"

text \<open>
  The request of the specification's example: the RAV4 (id 2, 70 per day, 3 of 3
  available) from 2024-06-01 to 2024-06-04, both dates at midnight UTC (time values
  1717200000000 and 1717459200000), against the initial inventory.
\<close>

definition b0 :: booking where
  "b0 = \<lparr> bookingId = ''BK1717000000000'', carId = 2, carName = ''Toyota RAV4'',
     firstName = ''Ada'', lastName = ''Obi'', email = ''ada@example.com'',
     phone = ''918-204-8691'', pickupDate = 1717200000000, returnDate = 1717459200000,
     pickupLocation = ''Tulsa'', additionalInfo = [], pricePerDay = 70, days = 3,
     subtotal = 210, tax = double_of (168 / 10), total = double_of (2268 / 10),
     paymentIntentId = None, paymentStatus = ''pending'',
     bookingDate = ''2024-05-29T16:26:40.000Z'' \<rparr>"



definition rq_paid :: request where
  "rq_paid = rq0\<lparr>rq_paymentIntentId := Some ''pi_1''\<rparr>"

text \<open>A request whose customer fields are all malformed, and the booking it leads to.\<close>

definition rq_malformed :: request where
  "rq_malformed = rq0\<lparr>rq_firstName := [], rq_lastName := [], rq_email := ''not-an-email'',
                       rq_phone := ''x'', rq_pickupLocation := []\<rparr>"

definition b_malformed :: booking where
  "b_malformed = b0\<lparr>firstName := [], lastName := [], email := ''not-an-email'',
                     phone := ''x'', pickupLocation := []\<rparr>"

text \<open>
  A booking record whose priced snapshot (5 days, 350, 28, 378) disagrees with its
  dates and daily rate, and a request whose customer texts carry markup, with the
  booking it leads to on the first server.
\<close>

definition b_inconsistent :: booking where
  "b_inconsistent = b0\<lparr>days := 5, subtotal := 350, tax := 28, total := 378\<rparr>"

definition rq_markup :: request where
  "rq_markup = rq0\<lparr>rq_firstName := ''<script>alert(1)</script>'',
                    rq_lastName := ''<b>Obi</b>'',
                    rq_additionalInfo := ''<img src=x onerror=alert(2)>''\<rparr>"

definition b_markup :: booking where
  "b_markup = b0\<lparr>firstName := ''<script>alert(1)</script>'',
                  lastName := ''<b>Obi</b>'',
                  additionalInfo := ''<img src=x onerror=alert(2)>''\<rparr>"

text \<open>
  Two paying customers for the one Camry (id 1, one available), with Stripe configured
  and both payments succeeded. The call of \<open>ev_paid\<close> arrives at 16:26:40.000 and has
  its answer from the payment collaborator at 16:26:40.200, the call of \<open>ev_later\<close>
  arrives at 16:26:40.050 and has its answer at 16:26:40.250. The call of \<open>ev_between\<close>
  arrives at 16:26:40.020 and has no payment to verify.
\<close>

definition ev_paid :: env where
  "ev_paid = ev0\<lparr>toISOString_now := ''2024-05-29T16:26:40.200Z'',
                  stripe_configured := True,
                  paymentIntents_retrieve := (\<lambda>_. Some ''succeeded'')\<rparr>"

definition ev_later :: env where
  "ev_later = ev_paid\<lparr>Date_now := 1717000000050,
                       toISOString_now := ''2024-05-29T16:26:40.250Z''\<rparr>"

definition ev_between :: env where
  "ev_between = ev_paid\<lparr>Date_now := 1717000000020,
                         toISOString_now := ''2024-05-29T16:26:40.020Z''\<rparr>"

definition rq_A :: request where
  "rq_A = rq0\<lparr>rq_carId := Some 1, rq_firstName := ''Ann'',
               rq_paymentIntentId := Some ''pi_A''\<rparr>"

definition rq_B :: request where
  "rq_B = rq0\<lparr>rq_carId := Some 1, rq_firstName := ''Bob'',
               rq_paymentIntentId := Some ''pi_B''\<rparr>"

definition b_A :: booking where
  "b_A = b0\<lparr>carId := 1, carName := ''Toyota Camry'', firstName := ''Ann'',
             pricePerDay := 60, subtotal := 180, tax := double_of (144 / 10),
             total := double_of (1944 / 10), paymentIntentId := Some ''pi_A'',
             paymentStatus := ''succeeded'',
             bookingDate := ''2024-05-29T16:26:40.200Z''\<rparr>"

definition b_B :: booking where
  "b_B = b_A\<lparr>bookingId := ''BK1717000000050'', firstName := ''Bob'',
               paymentIntentId := Some ''pi_B'',
               bookingDate := ''2024-05-29T16:26:40.250Z''\<rparr>"

definition b_between :: booking where
  "b_between = b0\<lparr>bookingId := ''BK1717000000020'',
                   bookingDate := ''2024-05-29T16:26:40.020Z''\<rparr>"

section \<open>Double arithmetic\<close>

text \<open>
  \<open>ilog2\<close> is the binary exponent of a positive rational; rounding to a double moves
  a value by at most half a unit in the last place, and leaves integers below \<open>2^53\<close>
  as they are.
\<close>

lemma ms_per_day_eq: "ms_per_day = 86400000"
  by code_simp

lemma tax_rate_eq: "tax_rate = 5764607523034235 / 72057594037927936"
  by code_simp

lemma of_int_bitlen_bounds:
  assumes "0 < p"
  shows "2 powi (bitlen p - 1) \<le> (of_int p :: rat)" and "(of_int p :: rat) < 2 powi (bitlen p)"
proof -
  from assms have b: "1 \<le> bitlen p" by (simp add: bitlen_alt_def)
  from bitlen_bounds [OF assms] have 1: "2 ^ nat (bitlen p - 1) \<le> p" and 2: "p < 2 ^ nat (bitlen p)"
    by auto
  from 1 have "(of_int (2 ^ nat (bitlen p - 1)) :: rat) \<le> of_int p"
    by (simp only: of_int_le_iff)
  then show "2 powi (bitlen p - 1) \<le> (of_int p :: rat)"
    using b by (simp add: power_int_nonneg_exp)
  from 2 have "(of_int p :: rat) < of_int (2 ^ nat (bitlen p))"
    by (simp only: of_int_less_iff)
  then show "(of_int p :: rat) < 2 powi (bitlen p)"
    using b by (simp add: power_int_nonneg_exp)
qed

lemma ilog2_bounds:
  assumes "0 < x"
  shows "2 powi (ilog2 x) \<le> x" and "x < 2 powi (ilog2 x + 1)"
proof -
  obtain p q where pq: "quotient_of x = (p, q)" by (cases "quotient_of x")
  from quotient_of_denom_pos [OF pq] have q: "0 < q" .
  from quotient_of_div [OF pq] have x: "x = of_int p / of_int q" .
  from assms x q have p: "0 < p" by (simp add: zero_less_divide_iff)
  let ?e = "bitlen p - bitlen q"
  note bp = of_int_bitlen_bounds [OF p] and bq = of_int_bitlen_bounds [OF q]
  have qpos: "(0::rat) < of_int q" using q by simp
  have up: "x < 2 powi (?e + 1)"
  proof -
    have "x < 2 powi (bitlen p) / of_int q" unfolding x using bp(2) qpos
      by (simp add: divide_strict_right_mono)
    also have "\<dots> \<le> 2 powi (bitlen p) / 2 powi (bitlen q - 1)"
      using bq(1) by (intro divide_left_mono) (auto intro!: mult_pos_pos qpos)
    also have "\<dots> = 2 powi (?e + 1)"
      by (simp add: power_int_diff [symmetric] algebra_simps)
    finally show ?thesis .
  qed
  have lo: "2 powi (?e - 1) \<le> x"
  proof -
    have "2 powi (?e - 1) = (2::rat) powi (bitlen p - 1) / 2 powi (bitlen q)"
      by (simp add: power_int_diff [symmetric] algebra_simps)
    also have "\<dots> \<le> 2 powi (bitlen p - 1) / of_int q"
      using bq(2) qpos by (intro divide_left_mono) (auto intro!: mult_pos_pos)
    also have "\<dots> \<le> x" unfolding x using bp(1) qpos
      by (simp add: divide_right_mono)
    finally show ?thesis .
  qed
  show "2 powi (ilog2 x) \<le> x"
    using lo by (simp add: ilog2_def pq Let_def)
  show "x < 2 powi (ilog2 x + 1)"
    using up by (auto simp: ilog2_def pq Let_def not_le)
qed

lemma round_half_even_err: "\<bar>of_int (round_half_even m) - m\<bar> \<le> 1 / 2"
proof -
  have "of_int \<lfloor>m\<rfloor> \<le> m" "m < of_int \<lfloor>m\<rfloor> + 1" by linarith+
  then show ?thesis
    by (auto simp: round_half_even_def Let_def abs_le_iff)
qed

lemma round_half_even_of_int: "round_half_even (of_int k) = k"
  by (simp add: round_half_even_def)

lemma double_of_err:
  assumes "x \<noteq> 0"
  shows "\<bar>double_of x - x\<bar> \<le> 2 powi (ilog2 \<bar>x\<bar> - 53)"
proof -
  let ?a = "\<bar>x\<bar>" and ?e = "ilog2 \<bar>x\<bar>"
  let ?n = "round_half_even (?a * 2 powi (52 - ?e))"
  have p: "(2::rat) powi (52 - ?e) * 2 powi (?e - 52) = 1"
    by (simp add: power_int_add [symmetric])
  have d: "double_of x = sgn x * of_int ?n * 2 powi (?e - 52)"
    using assms by (simp add: double_of_def Let_def)
  have "sgn x * (?a * 2 powi (52 - ?e)) * 2 powi (?e - 52) =
        sgn x * ?a * (2 powi (52 - ?e) * 2 powi (?e - 52))"
    by (simp only: mult.assoc)
  also have "\<dots> = x" unfolding p by (simp add: sgn_mult_abs)
  finally have "x = sgn x * (?a * 2 powi (52 - ?e)) * 2 powi (?e - 52)" by simp
  then have "double_of x - x = sgn x * (of_int ?n - ?a * 2 powi (52 - ?e)) * 2 powi (?e - 52)"
    unfolding d by (simp add: algebra_simps)
  then have "\<bar>double_of x - x\<bar> = \<bar>of_int ?n - ?a * 2 powi (52 - ?e)\<bar> * 2 powi (?e - 52)"
    using assms by (simp add: abs_mult abs_sgn_eq power_int_abs)
  also have "\<dots> \<le> 1 / 2 * 2 powi (?e - 52)"
    by (intro mult_right_mono round_half_even_err) simp
  also have "\<dots> = 2 powi (?e - 53)"
    by (simp add: power_int_diff)
  finally show ?thesis .
qed

lemma double_of_rel_err: "\<bar>double_of x - x\<bar> \<le> \<bar>x\<bar> / 2 ^ 53"
proof (cases "x = 0")
  case True
  then show ?thesis by (simp add: double_of_def)
next
  case False
  then have pos: "0 < \<bar>x\<bar>" by simp
  have "\<bar>double_of x - x\<bar> \<le> 2 powi (ilog2 \<bar>x\<bar> - 53)" by (rule double_of_err [OF False])
  also have "\<dots> = 2 powi (ilog2 \<bar>x\<bar>) / 2 ^ 53"
    by (simp add: power_int_diff)
  also have "\<dots> \<le> \<bar>x\<bar> / 2 ^ 53"
    using ilog2_bounds(1) [OF pos] by (simp add: divide_right_mono)
  finally show ?thesis .
qed

lemma ilog2_less:
  assumes "0 < x" and "x < 2 powi n"
  shows "ilog2 x < n"
proof (rule ccontr)
  assume "\<not> ilog2 x < n"
  then have "n \<le> ilog2 x" by simp
  then have "(2::rat) powi n \<le> 2 powi (ilog2 x)" by (simp add: power_int_increasing)
  with ilog2_bounds(1) [OF assms(1)] assms(2) show False by linarith
qed

lemma ilog2_ge:
  assumes "2 powi n \<le> x"
  shows "n \<le> ilog2 x"
proof (rule ccontr)
  assume "\<not> n \<le> ilog2 x"
  then have "ilog2 x + 1 \<le> n" by simp
  then have "(2::rat) powi (ilog2 x + 1) \<le> 2 powi n" by (simp add: power_int_increasing)
  moreover have "0 < x" using assms zero_less_power_int [of "2::rat" n] by linarith
  ultimately show False using ilog2_bounds(2) [of x] assms by linarith
qed

lemma double_of_int:
  assumes "\<bar>k\<bar> < 2 ^ 53"
  shows "double_of (of_int k) = of_int k"
proof (cases "k = 0")
  case True
  then show ?thesis by (simp add: double_of_def)
next
  case False
  let ?a = "\<bar>of_int k :: rat\<bar>"
  let ?e = "ilog2 ?a"
  have a: "?a = of_int \<bar>k\<bar>" by simp
  from False have "1 \<le> \<bar>k\<bar>" by simp
  then have "(1::rat) \<le> of_int \<bar>k\<bar>" by (simp only: of_int_1_le_iff)
  then have a1: "2 powi 0 \<le> ?a" by simp
  from assms have "(of_int \<bar>k\<bar> :: rat) < of_int (2 ^ 53)" by (simp only: of_int_less_iff)
  then have a2: "?a < 2 powi 53" by simp
  from ilog2_ge [OF a1] have e0: "0 \<le> ?e" .
  from a1 have apos: "0 < ?a" by simp
  from ilog2_less [OF apos a2] have e53: "?e < 53" .
  have "(2::rat) powi (52 - ?e) = of_int (2 ^ nat (52 - ?e))"
    using e53 by (simp add: power_int_nonneg_exp)
  then have "?a * 2 powi (52 - ?e) = of_int (\<bar>k\<bar> * 2 ^ nat (52 - ?e))"
    by simp
  then have r: "round_half_even (?a * 2 powi (52 - ?e)) = \<bar>k\<bar> * 2 ^ nat (52 - ?e)"
    by (simp only: round_half_even_of_int)
  have p: "(2::rat) ^ nat (52 - ?e) * 2 powi (?e - 52) = 1"
  proof -
    have "(2::rat) ^ nat (52 - ?e) = 2 powi (52 - ?e)"
      using e53 by (simp add: power_int_nonneg_exp)
    then show ?thesis by (simp add: power_int_add [symmetric])
  qed
  have "double_of (of_int k) = sgn (of_int k) * of_int (\<bar>k\<bar> * 2 ^ nat (52 - ?e)) * 2 powi (?e - 52)"
    using False by (simp add: double_of_def Let_def r)
  also have "\<dots> = sgn (of_int k) * of_int \<bar>k\<bar> * ((2::rat) ^ nat (52 - ?e) * 2 powi (?e - 52))"
    by (simp add: mult.assoc)
  also have "\<dots> = sgn (of_int k) * ?a" unfolding p by simp
  also have "\<dots> = of_int k" by (simp add: sgn_mult_abs)
  finally show ?thesis .
qed

lemma ceil_double_div:
  assumes "0 < d" and "d < 2 ^ 53"
  shows "\<lceil>double_of (of_int d / 86400000)\<rceil> = \<lceil>(of_int d :: rat) / 86400000\<rceil>"
proof (cases "d mod 86400000 = 0")
  case True
  then obtain k where k: "d = 86400000 * k" by (auto simp: mod_eq_0_iff_dvd)
  with assms have "\<bar>k\<bar> < 2 ^ 53" by simp
  from double_of_int [OF this] k show ?thesis by simp
next
  case False
  let ?x = "(of_int d :: rat) / 86400000"
  define k where "k = d div 86400000 + 1"
  define r where "r = d mod 86400000"
  have "0 \<le> r" and r2: "r < 86400000" by (simp_all add: r_def)
  with False have r: "0 < r" "r < 86400000" by (simp_all add: r_def)
  have d: "d = 86400000 * (k - 1) + r" by (simp add: k_def r_def)
  from d have "(of_int d :: rat) = of_int (86400000 * (k - 1) + r)" by (rule arg_cong)
  then have "(of_int d :: rat) = 86400000 * of_int (k - 1) + of_int r"
    by (simp only: of_int_add of_int_mult of_int_numeral)
  then have x: "?x = of_int (k - 1) + of_int r / 86400000"
    by (simp add: add_divide_distrib)
  from r have "1 \<le> r" "r \<le> 86399999" by simp_all
  then have "(of_int 1 :: rat) \<le> of_int r" "(of_int r :: rat) \<le> of_int 86399999"
    by (simp_all only: of_int_le_iff)
  then have "(1::rat) \<le> of_int r" "(of_int r :: rat) \<le> 86399999" by simp_all
  then have fr: "1 / 86400000 \<le> (of_int r :: rat) / 86400000"
    "(of_int r :: rat) / 86400000 \<le> 1 - 1 / 86400000"
    by (simp_all add: field_simps)
  have xpos: "0 < ?x" using assms by simp
  have "(of_int d :: rat) < of_int (2 ^ 53)" using assms by (simp only: of_int_less_iff)
  then have "?x < 2 powi 27" by (simp add: field_simps)
  from ilog2_less [OF xpos this] have "ilog2 ?x - 53 \<le> - 27" by simp
  then have "(2::rat) powi (ilog2 ?x - 53) \<le> 2 powi (- 27)"
    by (intro power_int_increasing) simp_all
  moreover have "\<bar>double_of ?x - ?x\<bar> \<le> 2 powi (ilog2 \<bar>?x\<bar> - 53)"
    using xpos by (intro double_of_err) simp
  moreover have "\<bar>?x\<bar> = ?x" using xpos by simp
  ultimately have "\<bar>double_of ?x - ?x\<bar> \<le> 2 powi (- 27)" by simp
  then have e: "\<bar>double_of ?x - ?x\<bar> < 1 / 86400000"
    by (simp add: power_int_minus field_simps)
  define y where "y = double_of ?x"
  define f where "f = (of_int r :: rat) / 86400000"
  define c where "c = (1::rat) / 86400000"
  define z where "z = ?x"
  have e': "\<bar>y - z\<bar> < c" using e by (simp only: y_def c_def z_def)
  have x': "z = of_int k - 1 + f" using x by (simp add: f_def z_def)
  have fr': "c \<le> f" "f \<le> 1 - c" using fr by (simp_all only: f_def c_def)
  from e' x' fr' have "of_int k - 1 < y" "y \<le> of_int k" by linarith+
  then have 1: "\<lceil>y\<rceil> = k" by (intro ceiling_unique) simp_all
  have "0 < c" by (simp add: c_def)
  with x' fr' have "of_int k - 1 < z" "z \<le> of_int k" by linarith+
  then have 2: "\<lceil>z\<rceil> = k" by (intro ceiling_unique) simp_all
  from 1 2 show ?thesis by (simp only: y_def z_def)
qed

lemma rental_days_exact:
  assumes "pickup < returnD" and "returnD - pickup < 2 ^ 53"
  shows "rental_days pickup returnD = \<lceil>(of_int (returnD - pickup) :: rat) / 86400000\<rceil>"
proof -
  from assms have "\<bar>returnD - pickup\<bar> < 2 ^ 53" by simp
  from double_of_int [OF this]
  have "js_sub (of_int returnD) (of_int pickup) = of_int (returnD - pickup)"
    by (simp add: js_sub_def)
  moreover have "0 < returnD - pickup" using assms by simp
  ultimately show ?thesis
    using ceil_double_div [OF _ assms(2)]
    by (simp add: rental_days_def Math_ceil_def js_div_def ms_per_day_eq)
qed

lemma rental_days_pos:
  assumes "pickup < returnD" and "returnD - pickup < 2 ^ 53"
  shows "0 < rental_days pickup returnD"
proof -
  have "(0::rat) < of_int (returnD - pickup) / 86400000" using assms by simp
  then show ?thesis unfolding rental_days_exact [OF assms] by simp
qed

lemma tax_close:
  assumes "0 < s"
  shows "\<bar>js_mul (of_int s) tax_rate - of_int s * 8 / 100\<bar> \<le> of_int s / 2 ^ 56"
proof -
  define S where "S = (of_int s :: rat)"
  have S: "0 < S" using assms by (simp add: S_def)
  define A where "A = S * tax_rate"
  have tpos: "0 < tax_rate" by (simp add: tax_rate_eq)
  have Apos: "0 < A" unfolding A_def using S tpos by (rule mult_pos_pos)
  have "\<bar>double_of A - A\<bar> \<le> \<bar>A\<bar> / 2 ^ 53" by (rule double_of_rel_err)
  with Apos have 1: "\<bar>double_of A - A\<bar> \<le> A / 2 ^ 53" by simp
  have 2: "A / 2 ^ 53 = S * (5764607523034235 / 649037107316853453566312041152512)"
    by (simp add: A_def tax_rate_eq)
  have 3: "A - S * 8 / 100 = S * (3 / 1801439850948198400)"
    by (simp add: A_def tax_rate_eq algebra_simps)
  have 4: "S / 2 ^ 56 = S * (1 / 72057594037927936)" by simp
  define u where "u = S * (5764607523034235 / 649037107316853453566312041152512)"
  define v where "v = S * (3 / 1801439850948198400)"
  define w where "w = S * (1 / 72057594037927936)"
  have "u + v = S * (5764607523034235 / 649037107316853453566312041152512 + 3 / 1801439850948198400)"
    by (simp add: u_def v_def algebra_simps)
  also have "\<dots> \<le> S * (1 / 72057594037927936)"
    using S by (intro mult_left_mono) simp_all
  finally have uvw: "u + v \<le> w" by (simp add: w_def)
  have v0: "0 \<le> v" using S by (simp add: v_def)
  from 1 2 have a: "\<bar>double_of A - A\<bar> \<le> u" by (simp add: u_def)
  from 3 have b: "A - S * 8 / 100 = v" by (simp add: v_def)
  from a b uvw v0 have "\<bar>double_of A - S * 8 / 100\<bar> \<le> w" by linarith
  then show ?thesis by (simp add: js_mul_def A_def S_def w_def)
qed

lemma tax_total_cents:
  assumes "0 < s" and "s < 10 ^ 13"
  shows "cents (js_mul (of_int s) tax_rate) = 8 * s"
    and "cents (js_add (of_int s) (js_mul (of_int s) tax_rate)) = 108 * s"
proof -
  define S where "S = (of_int s :: rat)"
  define tx where "tx = js_mul S tax_rate"
  define tot where "tot = js_add S tx"
  have S: "0 < S" using assms by (simp add: S_def)
  from assms(2) have "(of_int s :: rat) < of_int (10 ^ 13)" by (simp only: of_int_less_iff)
  then have S13: "S < 10 ^ 13" by (simp add: S_def)
  from tax_close [OF assms(1)] have c: "\<bar>tx - S * 8 / 100\<bar> \<le> S / 2 ^ 56"
    by (simp add: tx_def S_def)
  define e where "e = S / 2 ^ 56"
  have e: "0 < e" "e * 1700 < 1 / 2" using S S13 by (simp_all add: e_def)
  from c have c1: "tx - S * 8 / 100 \<le> e" and c2: "- e \<le> tx - S * 8 / 100"
    by (simp_all only: abs_le_iff e_def) linarith+
  have 1: "of_int (8 * s) = S * 8" by (simp add: S_def)
  from c1 c2 e have "of_int (8 * s) \<le> tx * 100 + 1 / 2" "tx * 100 + 1 / 2 < of_int (8 * s) + 1"
    unfolding 1 by linarith+
  then have "\<lfloor>tx * 100 + 1 / 2\<rfloor> = 8 * s" by (intro floor_unique)
  then show "cents (js_mul (of_int s) tax_rate) = 8 * s"
    by (simp add: cents_def tx_def S_def)
  have "e \<le> S / 100" using S by (simp add: e_def)
  with c1 c2 S have txb: "0 \<le> tx" "tx \<le> S" by linarith+
  have "\<bar>double_of (S + tx) - (S + tx)\<bar> \<le> \<bar>S + tx\<bar> / 2 ^ 53" by (rule double_of_rel_err)
  with txb S have d: "\<bar>tot - (S + tx)\<bar> \<le> (S + tx) / 2 ^ 53"
    by (simp add: tot_def js_add_def)
  have "(S + tx) / 2 ^ 53 \<le> (S + S) / 2 ^ 53"
    using txb by (intro divide_right_mono) simp_all
  also have "\<dots> = 16 * e" by (simp add: e_def)
  finally have g: "(S + tx) / 2 ^ 53 \<le> 16 * e" .
  from d g have d1: "tot - (S + tx) \<le> 16 * e" and d2: "- (16 * e) \<le> tot - (S + tx)"
    by (simp_all only: abs_le_iff) linarith+
  have 2: "of_int (108 * s) = S * 108" by (simp add: S_def)
  from c1 c2 d1 d2 e have "of_int (108 * s) \<le> tot * 100 + 1 / 2"
    "tot * 100 + 1 / 2 < of_int (108 * s) + 1"
    unfolding 2 by linarith+
  then have "\<lfloor>tot * 100 + 1 / 2\<rfloor> = 108 * s" by (intro floor_unique)
  then show "cents (js_add (of_int s) (js_mul (of_int s) tax_rate)) = 108 * s"
    by (simp add: cents_def tot_def tx_def S_def)
qed

text \<open>Rounding keeps the sign, so a return date that is not later gives no positive day count.\<close>

lemma round_half_even_nonneg: "0 \<le> m \<Longrightarrow> 0 \<le> round_half_even m"
  by (auto simp: round_half_even_def Let_def)

lemma double_of_nonpos: "x \<le> 0 \<Longrightarrow> double_of x \<le> 0"
proof (cases "x = 0")
  case True
  then show ?thesis by (simp add: double_of_def)
next
  case False
  assume "x \<le> 0"
  with False have s: "sgn x = - 1" by simp
  let ?n = "round_half_even (\<bar>x\<bar> * 2 powi (52 - ilog2 \<bar>x\<bar>))"
  have "0 \<le> \<bar>x\<bar> * 2 powi (52 - ilog2 \<bar>x\<bar>)" by simp
  from round_half_even_nonneg [OF this] have "(0::rat) \<le> of_int ?n" by simp
  then have "0 \<le> of_int ?n * (2::rat) powi (ilog2 \<bar>x\<bar> - 52)" by simp
  with False s show ?thesis by (simp add: double_of_def Let_def)
qed

lemma rental_days_nonpos:
  assumes "returnD \<le> pickup"
  shows "rental_days pickup returnD \<le> 0"
proof -
  from assms have "(of_int returnD :: rat) - of_int pickup \<le> 0" by simp
  from double_of_nonpos [OF this] have "js_sub (of_int returnD) (of_int pickup) \<le> 0"
    by (simp add: js_sub_def)
  then have "js_sub (of_int returnD) (of_int pickup) / ms_per_day \<le> 0"
    by (simp add: ms_per_day_eq divide_le_0_iff)
  from double_of_nonpos [OF this]
  have "js_div (js_sub (of_int returnD) (of_int pickup)) ms_per_day \<le> 0"
    by (simp add: js_div_def)
  then show ?thesis by (simp add: rental_days_def Math_ceil_def ceiling_le_zero)
qed

section \<open>Properties of the lookup\<close>

lemma find_car_update:
  "find_car i cs = Some c \<Longrightarrow>
     \<exists>k. k < length cs \<and> cs ! k = c \<and> Some (car_id c) = i \<and>
         (\<forall>j<k. Some (car_id (cs ! j)) \<noteq> i) \<and> update_car i f cs = cs[k := f c]"
proof (induction cs)
  case Nil
  then show ?case by (simp add: find_car_def)
next
  case (Cons a cs)
  show ?case
  proof (cases "Some (car_id a) = i")
    case True
    with Cons.prems have "a = c" by (simp add: find_car_def)
    with True have "0 < length (a # cs) \<and> (a # cs) ! 0 = c \<and> Some (car_id c) = i \<and>
        (\<forall>j<0. Some (car_id ((a # cs) ! j)) \<noteq> i) \<and>
        update_car i f (a # cs) = (a # cs)[0 := f c]"
      by simp
    then show ?thesis by blast
  next
    case False
    with Cons.prems have "find_car i cs = Some c" by (simp add: find_car_def)
    from Cons.IH [OF this] obtain k where k: "k < length cs" "cs ! k = c"
      "Some (car_id c) = i" "\<forall>j<k. Some (car_id (cs ! j)) \<noteq> i"
      "update_car i f cs = cs[k := f c]" by blast
    have "\<forall>j<Suc k. Some (car_id ((a # cs) ! j)) \<noteq> i"
    proof (intro allI impI)
      fix j assume "j < Suc k"
      then show "Some (car_id ((a # cs) ! j)) \<noteq> i"
        using False k(4) by (cases j) auto
    qed
    with k False have "Suc k < length (a # cs) \<and> (a # cs) ! Suc k = c \<and>
        Some (car_id c) = i \<and> (\<forall>j<Suc k. Some (car_id ((a # cs) ! j)) \<noteq> i) \<and>
        update_car i f (a # cs) = (a # cs)[Suc k := f c]"
      by simp
    then show ?thesis by blast
  qed
qed

lemma loadInventory_existing:
  "inventoryFile w = Some iv \<Longrightarrow> loadInventory w = (iv, w\<lparr>loads := Suc (loads w)\<rparr>)"
  by (simp add: loadInventory_def initializeInventory_def)

text \<open>The successful path of the handler, in one equation.\<close>

lemma post_bookings_success:
  assumes "inventoryFile w = Some iv" and "find_car (rq_carId rq) (cars iv) = Some c"
    and "0 < available c" and "rq_pickupDate rq < rq_returnDate rq"
    and "verify_payment ev (rq_paymentIntentId rq) = Inr status"
  shows "post_bookings ev rq w =
     (Booked (new_booking ev rq c
                (pricing (rq_pickupDate rq) (rq_returnDate rq) (price c)) status),
      \<lparr> inventoryFile = Some (iv\<lparr>cars := update_car (rq_carId rq)
                 (\<lambda>k. k\<lparr>available := available k - 1\<rparr>) (cars iv),
               bookings := bookings iv @ [new_booking ev rq c
                 (pricing (rq_pickupDate rq) (rq_returnDate rq) (price c)) status]\<rparr>),
        loads = Suc (loads w), saves = Suc (saves w) \<rparr>)"
  using assms
  by (simp add: post_bookings_def loadInventory_existing saveInventory_def Let_def)

lemma verify_payment_Inl:
  "verify_payment ev p = Inl e \<Longrightarrow> e = PaymentVerificationFailed \<or> e = PaymentNotCompleted"
  by (auto simp: verify_payment_def split: option.splits if_splits)

lemma post_bookings_Booked:
  assumes "inventoryFile w = Some iv" and "post_bookings ev rq w = (Booked b, w')"
  shows "\<exists>c status. find_car (rq_carId rq) (cars iv) = Some c \<and> 0 < available c \<and>
           rq_pickupDate rq < rq_returnDate rq \<and>
           verify_payment ev (rq_paymentIntentId rq) = Inr status"
  using assms
  by (auto simp: post_bookings_def loadInventory_existing Let_def
           split: option.splits if_splits sum.splits dest: verify_payment_Inl)

section \<open>The example booking, evaluated\<close>

lemma pricing_example:
  "pricing 1717200000000 1717459200000 70 =
     (3, 210, double_of (168 / 10), double_of (2268 / 10))"
  by code_simp

lemma show_int_example: "show_int 1717000000000 = ''1717000000000''"
  by (simp add: show_int_def show_nat.simps)

lemma car_fields:
  "car_id camry = 1" "car_id rav4 = 2" "available rav4 = 3" "price rav4 = 70"
  "name rav4 = ''Toyota RAV4''" "quantity rav4 = 3"
  by (simp_all add: camry_def rav4_def)

lemma find_rav4: "find_car (Some 2) [camry, rav4] = Some rav4"
  by (simp add: find_car_def car_fields)

lemma rq0_fields:
  "rq_pickupDate rq0 = 1717200000000" "rq_returnDate rq0 = 1717459200000"
  "rq_carId rq0 = Some 2" "rq_paymentIntentId rq0 = None"
  by (simp_all add: rq0_def)

lemma new_booking_example:
  "new_booking ev0 rq0 rav4 (pricing 1717200000000 1717459200000 70) ''pending'' = b0"
  unfolding pricing_example
  by (simp add: new_booking_def ev0_def rq0_def show_int_example b0_def truthy_def
        car_fields)

lemma post_bookings_example:
  "post_bookings ev0 rq0 w0 =
     (Booked b0,
      \<lparr> inventoryFile = Some \<lparr> cars = [camry, rav4\<lparr>available := 2\<rparr>], bookings = [b0] \<rparr>,
        loads = 1, saves = 1 \<rparr>)"
proof -
  have 1: "inventoryFile w0 = Some initialInventory" by (simp add: w0_def)
  have 2: "find_car (rq_carId rq0) (cars initialInventory) = Some rav4"
    by (simp add: rq0_fields initialInventory_def find_rav4)
  have 3: "0 < available rav4" by (simp add: car_fields)
  have 4: "rq_pickupDate rq0 < rq_returnDate rq0" by (simp add: rq0_fields)
  have 5: "verify_payment ev0 (rq_paymentIntentId rq0) = Inr ''pending''"
    by (simp add: verify_payment_def rq0_fields)
  show ?thesis
    unfolding post_bookings_success [OF 1 2 3 4 5] rq0_fields car_fields new_booking_example
    by (simp add: initialInventory_def car_fields w0_def)
qed

section \<open>Claims about the booking handler\<close>

text \<open>
  C5. A booking is created only when the targeted car, as just loaded from the store,
  has \<open>available > 0\<close>; against a car with \<open>available = 0\<close> the call answers
  CarUnavailable and leaves the store as it was: the file is the same and no save has
  run (only the load is counted).
\<close>

theorem unavailable_car_rejected:
  assumes "inventoryFile w = Some iv" and "find_car (rq_carId rq) (cars iv) = Some c"
  shows "(\<forall>b w'. post_bookings ev rq w = (Booked b, w') \<longrightarrow> 0 < available c) \<and>
         (available c = 0 \<longrightarrow>
            post_bookings ev rq w = (CarUnavailable, w\<lparr>loads := Suc (loads w)\<rparr>))"
  using assms
  by (auto simp: post_bookings_def loadInventory_existing Let_def
           split: prod.splits sum.splits if_splits)

theorem unavailable_car_rejected_witness:
  "post_bookings ev0 rq0 (w0\<lparr>inventoryFile := Some sold_out\<rparr>) =
     (CarUnavailable, w0\<lparr>inventoryFile := Some sold_out, loads := 1\<rparr>) \<and>
   0 < available rav4"
proof -
  let ?w = "w0\<lparr>inventoryFile := Some sold_out\<rparr>"
  have 1: "inventoryFile ?w = Some sold_out" by simp
  have 2: "find_car (rq_carId rq0) (cars sold_out) = Some (rav4\<lparr>available := 0\<rparr>)"
    by (simp add: find_car_def rq0_def sold_out_def initialInventory_def camry_def rav4_def)
  have 3: "available (rav4\<lparr>available := 0\<rparr>) = 0" by simp
  from unavailable_car_rejected [OF 1 2, of ev0] 3
  have refused: "post_bookings ev0 rq0 ?w =
      (CarUnavailable, w0\<lparr>inventoryFile := Some sold_out, loads := 1\<rparr>)"
    by (simp add: w0_def)
  have 4: "inventoryFile w0 = Some initialInventory" by (simp add: w0_def)
  have 5: "find_car (rq_carId rq0) (cars initialInventory) = Some rav4"
    by (simp add: rq0_fields initialInventory_def find_rav4)
  from unavailable_car_rejected [OF 4 5, of ev0] post_bookings_example
  have "0 < available rav4" by blast
  with refused show ?thesis by blast
qed

text \<open>
  C4. With an existing car that is available, a request whose return date is not after
  its pickup date answers InvalidDateRange and changes nothing: no booking is appended,
  no car is touched, no save runs.
\<close>

theorem invalid_date_range_rejected:
  assumes "inventoryFile w = Some iv" and "find_car (rq_carId rq) (cars iv) = Some c"
    and "0 < available c" and "rq_returnDate rq \<le> rq_pickupDate rq"
  shows "post_bookings ev rq w = (InvalidDateRange, w\<lparr>loads := Suc (loads w)\<rparr>)"
  using assms by (simp add: post_bookings_def loadInventory_existing)

theorem invalid_date_range_rejected_witness:
  "post_bookings ev0 (rq0\<lparr>rq_returnDate := 1717200000000\<rparr>) w0 =
     (InvalidDateRange, w0\<lparr>loads := 1\<rparr>)"
proof -
  let ?rq = "rq0\<lparr>rq_returnDate := 1717200000000\<rparr>"
  have 1: "inventoryFile w0 = Some initialInventory" by (simp add: w0_def)
  have 2: "find_car (rq_carId ?rq) (cars initialInventory) = Some rav4"
    by (simp add: find_car_def rq0_def initialInventory_def camry_def rav4_def)
  have 3: "0 < available rav4" by (simp add: rav4_def)
  have 4: "rq_returnDate ?rq \<le> rq_pickupDate ?rq" by (simp add: rq0_def)
  from invalid_date_range_rejected [OF 1 2 3 4, of ev0] show ?thesis
    by (simp add: w0_def)
qed

lemma example_preconditions:
  "inventoryFile w0 = Some initialInventory"
  "find_car (rq_carId rq0) (cars initialInventory) = Some rav4"
  "find_car (rq_carId rq_paid) (cars initialInventory) = Some rav4"
  "0 < available rav4"
  "rq_pickupDate rq0 < rq_returnDate rq0"
  "rq_pickupDate rq_paid < rq_returnDate rq_paid"
  by (simp_all add: w0_def rq0_def rq_paid_def initialInventory_def find_rav4 car_fields)




text \<open>
  C3 asks for a ValidationFailed answer, given before the store is loaded, when a
  customer field is malformed. The handler of the first server has no such check:
  a request with empty names, a malformed email and phone number and no pickup
  location is booked, and the store is loaded and saved.
\<close>

theorem malformed_customer_booked:
  "post_bookings ev0 rq_malformed w0 =
     (Booked b_malformed,
      \<lparr> inventoryFile =
          Some \<lparr> cars = [camry, rav4\<lparr>available := 2\<rparr>], bookings = [b_malformed] \<rparr>,
        loads = 1, saves = 1 \<rparr>)"
proof -
  have 2: "find_car (rq_carId rq_malformed) (cars initialInventory) = Some rav4"
    by (simp add: rq_malformed_def rq0_def initialInventory_def find_rav4)
  have 4: "rq_pickupDate rq_malformed < rq_returnDate rq_malformed"
    by (simp add: rq_malformed_def rq0_def)
  have 5: "verify_payment ev0 (rq_paymentIntentId rq_malformed) = Inr ''pending''"
    by (simp add: verify_payment_def rq_malformed_def rq0_def)
  have 6: "new_booking ev0 rq_malformed rav4
             (pricing 1717200000000 1717459200000 70) ''pending'' = b_malformed"
    unfolding pricing_example
    by (simp add: new_booking_def ev0_def rq_malformed_def rq0_def show_int_example
          b_malformed_def b0_def truthy_def car_fields)
  have 7: "rq_pickupDate rq_malformed = 1717200000000"
    "rq_returnDate rq_malformed = 1717459200000" "rq_carId rq_malformed = Some 2"
    by (simp_all add: rq_malformed_def rq0_def)
  show ?thesis
    unfolding post_bookings_success [OF example_preconditions(1) 2 example_preconditions(4) 4 5]
      7 car_fields 6
    by (simp add: initialInventory_def car_fields w0_def)
qed

text \<open>
  The second server does run this check: whenever a name, the pickup location, the
  email or the phone number is malformed, the answer is ValidationFailed and the world
  is untouched, the store not even loaded.
\<close>

lemma trim_empty: "trim [] = []"
  by (simp add: trim_def)

lemma script_validation_first:
  assumes "trim (raw_firstName r) = [] \<or> trim (raw_lastName r) = [] \<or>
           \<not> isEmail lib (raw_email r) \<or> \<not> matches_phone (trim (raw_phone r)) \<or>
           \<not> isLength 10 20 (trim (raw_phone r)) \<or> trim (raw_pickupLocation r) = []"
  shows "script_post_bookings lib ev r w = (ValidationFailed, w)"
proof -
  from assms have "\<not> valid_request lib r"
    by (auto simp: valid_request_def isLength_def)
  then show ?thesis by (simp add: script_post_bookings_def)
qed

text \<open>
  Past the validation, the second server refuses a sold-out car and a return date
  that is not after the pickup date like the first.
\<close>

lemma script_loadInventory_existing:
  "inventoryFile w = Some iv \<Longrightarrow>
   script_loadInventory w = (iv, w\<lparr>loads := Suc (loads w)\<rparr>)"
  by (simp add: script_loadInventory_def script_initializeInventory_def)

lemma script_invalid_date_range:
  assumes "valid_request lib r" and "inventoryFile w = Some iv"
    and "find_car (raw_carId r) (cars iv) = Some c" and "0 < available c"
    and "raw_pickupDate r = Some p" and "raw_returnDate r = Some t" and "t \<le> p"
  shows "script_post_bookings lib ev r w = (InvalidDateRange, w\<lparr>loads := Suc (loads w)\<rparr>)"
  using assms rental_days_nonpos [OF assms(7)]
  by (simp add: script_post_bookings_def script_loadInventory_existing sanitized_def)

lemma script_unavailable:
  assumes "valid_request lib r" and "inventoryFile w = Some iv"
    and "find_car (raw_carId r) (cars iv) = Some c" and "available c \<le> 0"
  shows "script_post_bookings lib ev r w = (CarUnavailable, w\<lparr>loads := Suc (loads w)\<rparr>)"
  using assms
  by (simp add: script_post_bookings_def script_loadInventory_existing sanitized_def)

section \<open>The availability invariant under the operations\<close>

lemma update_car_preserves:
  assumes "list_all P cs" and "find_car i cs = Some c" and "P (f c)"
  shows "list_all P (update_car i f cs)"
proof -
  from find_car_update [OF assms(2), of f] obtain k where
    k: "k < length cs" "update_car i f cs = cs[k := f c]" by blast
  have "set (cs[k := f c]) \<subseteq> insert (f c) (set cs)" by (rule set_update_subset_insert)
  with assms(1,3) have "list_all P (cs[k := f c])"
    by (auto simp: list_all_iff)
  with k show ?thesis by simp
qed

lemma find_car_mem: "find_car i cs = Some c \<Longrightarrow> c \<in> set cs"
  using find_car_update [of i cs c id] by (auto simp: in_set_conv_nth)

lemma loadInventory_cases:
  "loadInventory w = (iv, w1) \<Longrightarrow>
     (inventoryFile w = Some iv \<or> inventoryFile w = None \<and> iv = initialInventory) \<and>
     inventoryFile w1 = Some iv"
  by (auto simp: loadInventory_def initializeInventory_def split: option.splits)

lemma initialInventory_ok: "store_ok initialInventory"
  by (simp add: store_ok_def initialInventory_def availability_ok_def camry_def rav4_def)

text \<open>
  A store is in order when its file, if it exists, satisfies the invariant.
\<close>

lemma file_ok_load:
  assumes "\<forall>iv. inventoryFile w = Some iv \<longrightarrow> store_ok iv" and "loadInventory w = (iv, w1)"
  shows "store_ok iv"
  using assms loadInventory_cases [OF assms(2)] initialInventory_ok by auto

lemma post_bookings_keeps_invariant:
  assumes "\<forall>iv. inventoryFile w = Some iv \<longrightarrow> store_ok iv"
    and "post_bookings ev rq w = (resp, w')" and "inventoryFile w' = Some iv'"
  shows "store_ok iv'"
proof -
  obtain iv w1 where l: "loadInventory w = (iv, w1)" by (cases "loadInventory w")
  from file_ok_load [OF assms(1) l] have ok: "store_ok iv" .
  from loadInventory_cases [OF l] have w1: "inventoryFile w1 = Some iv" by simp
  show ?thesis
  proof (cases "\<exists>b. resp = Booked b")
    case False
    with assms(2) l have "w' = w1"
      by (auto simp: post_bookings_def Let_def
               split: option.splits if_splits sum.splits)
    with w1 assms(3) ok show ?thesis by simp
  next
    case True
    then obtain b where b: "resp = Booked b" by blast
    from assms(2) l b obtain c where c: "find_car (rq_carId rq) (cars iv) = Some c"
      "0 < available c"
      and iv': "cars iv' = update_car (rq_carId rq)
                   (\<lambda>k. k\<lparr>available := available k - 1\<rparr>) (cars iv)"
      using assms(3)
      by (auto simp: post_bookings_def Let_def saveInventory_def
               split: option.splits if_splits sum.splits dest: verify_payment_Inl)
    from find_car_mem [OF c(1)] ok have "availability_ok c"
      by (auto simp: store_ok_def list_all_iff)
    with c(2) have "availability_ok (c\<lparr>available := available c - 1\<rparr>)"
      by (simp add: availability_ok_def)
    with ok c(1) iv' show ?thesis
      by (simp add: store_ok_def update_car_preserves)
  qed
qed

lemma post_images_keeps_invariant:
  assumes "\<forall>iv. inventoryFile w = Some iv \<longrightarrow> store_ok iv"
    and "post_images i files w = (resp, w')" and "inventoryFile w' = Some iv'"
  shows "store_ok iv'"
proof -
  obtain iv w1 where l: "loadInventory w = (iv, w1)" by (cases "loadInventory w")
  from file_ok_load [OF assms(1) l] have ok: "store_ok iv" .
  from loadInventory_cases [OF l] have w1: "inventoryFile w1 = Some iv" by simp
  show ?thesis
  proof (cases "find_car i (cars iv)")
    case None
    with assms(2,3) l w1 ok show ?thesis by (simp add: post_images_def)
  next
    case (Some c)
    from find_car_mem [OF Some] ok have "availability_ok c"
      by (auto simp: store_ok_def list_all_iff)
    then have "availability_ok (c\<lparr>images := images c @ files\<rparr>)"
      by (simp add: availability_ok_def)
    with ok Some have "list_all availability_ok
        (update_car i (\<lambda>k. k\<lparr>images := images k @ files\<rparr>) (cars iv))"
      by (simp add: store_ok_def update_car_preserves)
    with assms(2,3) l w1 ok Some show ?thesis
      by (auto simp: post_images_def saveInventory_def store_ok_def split: if_splits)
  qed
qed

text \<open>
  The availability update of the first server keeps the invariant as long as the new
  quantity, if one is given, is not negative.
\<close>

lemma set_availability_ok:
  assumes "availability_ok c" and "\<forall>q. body_quantity body = Some q \<longrightarrow> 0 \<le> q"
  shows "availability_ok (set_availability body c)"
  using assms
  by (auto simp: availability_ok_def set_availability_def split: option.splits)

lemma put_availability_keeps_invariant:
  assumes "\<forall>iv. inventoryFile w = Some iv \<longrightarrow> store_ok iv"
    and "\<forall>q. body_quantity body = Some q \<longrightarrow> 0 \<le> q"
    and "put_availability i body w = (resp, w')" and "inventoryFile w' = Some iv'"
  shows "store_ok iv'"
proof -
  obtain iv w1 where l: "loadInventory w = (iv, w1)" by (cases "loadInventory w")
  from file_ok_load [OF assms(1) l] have ok: "store_ok iv" .
  from loadInventory_cases [OF l] have w1: "inventoryFile w1 = Some iv" by simp
  show ?thesis
  proof (cases "find_car i (cars iv)")
    case None
    with assms(3,4) l w1 ok show ?thesis by (simp add: put_availability_def)
  next
    case (Some c)
    from find_car_mem [OF Some] ok have "availability_ok c"
      by (auto simp: store_ok_def list_all_iff)
    from set_availability_ok [OF this assms(2)] ok Some
    have "list_all availability_ok (update_car i (set_availability body) (cars iv))"
      by (simp add: store_ok_def update_car_preserves)
    with assms(3,4) l Some show ?thesis
      by (auto simp: put_availability_def saveInventory_def store_ok_def)
  qed
qed

text \<open>The availability update of the second server refuses what would break it.\<close>

lemma script_loadInventory_cases:
  "script_loadInventory w = (iv, w1) \<Longrightarrow>
     (inventoryFile w = Some iv \<or> inventoryFile w = None \<and> iv = script_initialInventory) \<and>
     inventoryFile w1 = Some iv"
  by (auto simp: script_loadInventory_def script_initializeInventory_def split: option.splits)

lemma script_initialInventory_ok: "store_ok script_initialInventory"
  by (simp add: store_ok_def script_initialInventory_def availability_ok_def)

lemma script_file_ok_load:
  assumes "\<forall>iv. inventoryFile w = Some iv \<longrightarrow> store_ok iv"
    and "script_loadInventory w = (iv, w1)"
  shows "store_ok iv"
  using assms script_loadInventory_cases [OF assms(2)] script_initialInventory_ok by auto

lemma script_put_availability_keeps_invariant:
  assumes "\<forall>iv. inventoryFile w = Some iv \<longrightarrow> store_ok iv"
    and "script_put_availability i body w = (resp, w')" and "inventoryFile w' = Some iv'"
  shows "store_ok iv'"
proof (cases "\<exists>c. resp = Updated c")
  case False
  with assms(2) have "w' = w \<or> (\<exists>iv. script_loadInventory w = (iv, w'))"
    by (auto simp: script_put_availability_def Let_def
             split: option.splits if_splits prod.splits)
  then show ?thesis
  proof
    assume "w' = w"
    with assms(1,3) show ?thesis by simp
  next
    assume "\<exists>iv. script_loadInventory w = (iv, w')"
    then obtain iv where l: "script_loadInventory w = (iv, w')" by blast
    from script_loadInventory_cases [OF l] assms(3) have "iv = iv'" by simp
    with script_file_ok_load [OF assms(1) l] show ?thesis by simp
  qed
next
  case True
  then obtain u where u: "resp = Updated u" by blast
  obtain iv w1 where l: "script_loadInventory w = (iv, w1)" by (cases "script_loadInventory w")
  from script_file_ok_load [OF assms(1) l] have ok: "store_ok iv" .
  from assms(2) u have "\<exists>a q. body_available body = Some a \<and> body_quantity body = Some q \<and>
      0 \<le> a \<and> a \<le> q"
    by (auto simp: script_put_availability_def split: option.splits if_splits)
  then obtain a q where body: "body_available body = Some a" "body_quantity body = Some q"
    and aq: "0 \<le> a" "a \<le> q" by blast
  from assms(2) u l body aq have "\<exists>c. find_car i (cars iv) = Some c \<and>
      w' = saveInventory
        (iv\<lparr>cars := update_car i (\<lambda>k. k\<lparr>available := a, quantity := q\<rparr>) (cars iv)\<rparr>) w1"
    by (auto simp: script_put_availability_def split: option.splits)
  then obtain c where c: "find_car i (cars iv) = Some c"
    and w': "w' = saveInventory
       (iv\<lparr>cars := update_car i (\<lambda>k. k\<lparr>available := a, quantity := q\<rparr>) (cars iv)\<rparr>) w1"
    by blast
  from aq have "availability_ok (c\<lparr>available := a, quantity := q\<rparr>)"
    by (simp add: availability_ok_def)
  with ok c have "list_all availability_ok
      (update_car i (\<lambda>k. k\<lparr>available := a, quantity := q\<rparr>) (cars iv))"
    by (simp add: store_ok_def update_car_preserves)
  with w' assms(3) show ?thesis
    by (auto simp: saveInventory_def store_ok_def)
qed

lemma script_post_bookings_keeps_invariant:
  assumes "\<forall>iv. inventoryFile w = Some iv \<longrightarrow> store_ok iv"
    and "script_post_bookings lib ev r w = (resp, w')" and "inventoryFile w' = Some iv'"
  shows "store_ok iv'"
proof (cases "valid_request lib r")
  case False
  with assms(2) have "w' = w" by (simp add: script_post_bookings_def)
  with assms(1,3) show ?thesis by simp
next
  case True
  obtain iv w1 where l: "script_loadInventory w = (iv, w1)" by (cases "script_loadInventory w")
  from script_file_ok_load [OF assms(1) l] have ok: "store_ok iv" .
  from script_loadInventory_cases [OF l] have w1: "inventoryFile w1 = Some iv" by simp
  show ?thesis
  proof (cases "\<exists>b. resp = Booked b")
    case False
    with assms(2) l True have "w' = w1"
      by (auto simp: script_post_bookings_def Let_def split: option.splits if_splits)
    with w1 assms(3) ok show ?thesis by simp
  next
    case b: True
    let ?i = "rq_carId (sanitized lib r)"
    from assms(2,3) l True b obtain c where c: "find_car ?i (cars iv) = Some c"
      and iv': "cars iv' = update_car ?i (\<lambda>k. k\<lparr>available := max 0 (available k - 1)\<rparr>) (cars iv)"
      by (auto simp: script_post_bookings_def Let_def saveInventory_def
               split: option.splits if_splits)
    from find_car_mem [OF c] ok have "availability_ok c"
      by (auto simp: store_ok_def list_all_iff)
    then have "availability_ok (c\<lparr>available := max 0 (available c - 1)\<rparr>)"
      by (auto simp: availability_ok_def)
    with ok c iv' show ?thesis
      by (simp add: store_ok_def update_car_preserves)
  qed
qed

text \<open>
  C1 fails on the availability update of the first server: a negative quantity is
  stored as it comes, and \<open>available\<close> follows it below zero. On the initial inventory,
  the body \<open>{ quantity: -1 }\<close> for car 2 leaves \<open>quantity = -1\<close> and \<open>available = -1\<close>
  in the saved store.
\<close>

theorem negative_quantity_breaks_invariant:
  "put_availability (Some 2) \<lparr> body_available = None, body_quantity = Some (- 1) \<rparr> w0 =
     (Updated (rav4\<lparr>quantity := - 1, available := - 1\<rparr>),
      \<lparr> inventoryFile =
          Some \<lparr> cars = [camry, rav4\<lparr>quantity := - 1, available := - 1\<rparr>], bookings = [] \<rparr>,
        loads = 1, saves = 1 \<rparr>) \<and>
   store_ok initialInventory \<and>
   \<not> store_ok \<lparr> cars = [camry, rav4\<lparr>quantity := - 1, available := - 1\<rparr>], bookings = [] \<rparr>"
proof -
  let ?body = "\<lparr> body_available = None, body_quantity = Some (- 1) \<rparr>"
  have 1: "set_availability ?body rav4 = rav4\<lparr>quantity := - 1, available := - 1\<rparr>"
    by (simp add: set_availability_def car_fields)
  have 2: "update_car (Some 2) (set_availability ?body) [camry, rav4] =
             [camry, set_availability ?body rav4]"
    by (simp add: car_fields)
  have "put_availability (Some 2) ?body w0 =
     (Updated (rav4\<lparr>quantity := - 1, available := - 1\<rparr>),
      \<lparr> inventoryFile =
          Some \<lparr> cars = [camry, rav4\<lparr>quantity := - 1, available := - 1\<rparr>], bookings = [] \<rparr>,
        loads = 1, saves = 1 \<rparr>)"
    unfolding put_availability_def
      loadInventory_existing [OF example_preconditions(1)]
    by (simp add: initialInventory_def find_rav4 1 car_fields saveInventory_def w0_def)
  moreover have "\<not> store_ok \<lparr> cars = [camry, rav4\<lparr>quantity := - 1, available := - 1\<rparr>],
                             bookings = [] \<rparr>"
    by (simp add: store_ok_def availability_ok_def)
  ultimately show ?thesis using initialInventory_ok by blast
qed
section \<open>Invoices\<close>

lemma sublist_concat: "sublist ys xs \<Longrightarrow> sublist (concat ys) (concat xs)"
proof -
  assume "sublist ys xs"
  then obtain ps ss where "xs = ps @ ys @ ss" by (auto simp: sublist_def)
  then have "concat xs = concat ps @ concat ys @ concat ss" by simp
  then show ?thesis unfolding sublist_def by blast
qed

lemma sublist_in_append: "sublist xs ys \<Longrightarrow> sublist xs (ps @ ys @ ss)"
  by (meson sublist_appendI sublist_order.order_trans)

lemma toFixed2_eval:
  assumes "0 \<le> x" and "cents \<bar>x\<bar> = int n" and "show_nat n = ds" and "3 \<le> length ds"
  shows "toFixed2 x = take (length ds - 2) ds @ ''.'' @ drop (length ds - 2) ds"
  using assms by (simp add: toFixed2_def Let_def)


lemma toFixed2_tax: "toFixed2 (double_of (168 / 10)) = ''16.80''"
proof -
  have 0: "0 \<le> double_of (168 / 10)" by code_simp
  have 1: "cents \<bar>double_of (168 / 10)\<bar> = int 1680" by code_simp
  have 2: "show_nat 1680 = ''1680''" by (simp add: show_nat.simps)
  from toFixed2_eval [OF 0 1 2] show ?thesis by simp
qed

lemma toFixed2_total: "toFixed2 (double_of (2268 / 10)) = ''226.80''"
proof -
  have 0: "0 \<le> double_of (2268 / 10)" by code_simp
  have 1: "cents \<bar>double_of (2268 / 10)\<bar> = int 22680" by code_simp
  have 2: "show_nat 22680 = ''22680''" by (simp add: show_nat.simps)
  from toFixed2_eval [OF 0 1 2] show ?thesis by simp
qed





text \<open>
  Such a record does not come from the handler. The booking it creates takes its
  dates from the request and its daily rate from the car, the values the snapshot was
  computed from, so computing again gives the snapshot; this holds as well for a call
  that was suspended at the payment query, whatever happened to the store meanwhile.
\<close>

lemma created_booking_snapshot:
  assumes "inventoryFile w = Some iv" and "post_bookings ev rq w = (Booked b, w')"
  shows "pricing (pickupDate b) (returnDate b) (pricePerDay b) =
           (days b, subtotal b, tax b, total b)"
proof -
  from post_bookings_Booked [OF assms] obtain c status where
    c: "find_car (rq_carId rq) (cars iv) = Some c" "0 < available c"
       "rq_pickupDate rq < rq_returnDate rq"
       "verify_payment ev (rq_paymentIntentId rq) = Inr status"
    by blast
  from post_bookings_success [OF assms(1) c] assms(2)
  have "b = new_booking ev rq c
              (pricing (rq_pickupDate rq) (rq_returnDate rq) (price c)) status"
    by simp
  then show ?thesis
    by (cases "pricing (rq_pickupDate rq) (rq_returnDate rq) (price c)")
       (simp add: new_booking_def)
qed

lemma inconsistent_record_not_created:
  assumes "inventoryFile w = Some iv"
  shows "post_bookings ev rq w \<noteq> (Booked b_inconsistent, w')"
proof
  assume "post_bookings ev rq w = (Booked b_inconsistent, w')"
  from created_booking_snapshot [OF assms this]
  have "pricing (pickupDate b_inconsistent) (returnDate b_inconsistent)
          (pricePerDay b_inconsistent) = (5, 350, 28, 378)"
    by (simp add: b_inconsistent_def)
  moreover have "pricing (pickupDate b_inconsistent) (returnDate b_inconsistent)
             (pricePerDay b_inconsistent) =
           (3, 210, double_of (168 / 10), double_of (2268 / 10))"
    by (simp add: b_inconsistent_def b0_def pricing_example)
  ultimately show False by simp
qed

lemma suspended_booking_snapshot:
  assumes "post_bookings_begin ev rq w = (Awaiting p, w1)"
    and "post_bookings_resume ev p w2 = (Booked b, w3)"
  shows "pricing (pickupDate b) (returnDate b) (pricePerDay b) =
           (days b, subtotal b, tax b, total b)"
proof -
  from assms(1) have p: "pd_request p = rq"
    "pd_priced p = pricing (rq_pickupDate rq) (rq_returnDate rq) (price (pd_car p))"
    by (auto simp: post_bookings_begin_def post_bookings_complete_def Let_def
          split: prod.splits option.splits if_splits)
  from assms(2) obtain status where
    "b = new_booking ev (pd_request p) (pd_car p) (pd_priced p) status"
    by (auto simp: post_bookings_resume_def post_bookings_complete_def Let_def
          split: option.splits if_splits)
  with p show ?thesis
    by (cases "pricing (rq_pickupDate rq) (rq_returnDate rq) (price (pd_car p))")
       (simp add: new_booking_def)
qed



text \<open>The invoice of the second server prints the snapshot fields of the booking.\<close>

lemma script_invoice_shows_snapshot:
  shows \<open>sublist (''<span class="label">Rental Period:</span><span>'' @
                  show_int (days b) @ '' day(s)</span>'')
           (script_generateInvoiceHTML fmt b)\<close>
    and \<open>sublist (''<span class="label">Subtotal ('' @ show_int (days b) @
                  '' days):</span><span>$'' @ toFixed2 (subtotal b) @ ''</span>'')
           (script_generateInvoiceHTML fmt b)\<close>
    and \<open>sublist (''<span class="label">Tax (8%):</span><span>$'' @
                  toFixed2 (tax b) @ ''</span>'')
           (script_generateInvoiceHTML fmt b)\<close>
    and \<open>sublist (''<span>Total Amount:</span><span>$'' @ toFixed2 (total b) @ ''</span>'')
           (script_generateInvoiceHTML fmt b)\<close>
proof -
  have d: "sublist xs (script_invoice_details fmt b) \<Longrightarrow>
           sublist (concat xs) (script_generateInvoiceHTML fmt b)" for xs
  proof -
    assume "sublist xs (script_invoice_details fmt b)"
    then have "sublist xs (script_invoice_pieces fmt b)"
      unfolding script_invoice_pieces_def by (rule sublist_in_append)
    from sublist_concat [OF this] show ?thesis
      by (simp add: script_generateInvoiceHTML_def)
  qed
  have p: "sublist xs (script_invoice_pricing b) \<Longrightarrow>
           sublist (concat xs) (script_generateInvoiceHTML fmt b)" for xs
  proof -
    assume "sublist xs (script_invoice_pricing b)"
    then have "sublist xs (script_invoice_pieces fmt b)"
      unfolding script_invoice_pieces_def
      by (metis append.assoc sublist_in_append)
    from sublist_concat [OF this] show ?thesis
      by (simp add: script_generateInvoiceHTML_def)
  qed
  have \<open>sublist [''<span class="label">Rental Period:</span>'', ''<span>'',
                  show_int (days b), '' day(s)</span>'']
          (script_invoice_details fmt b)\<close>
    by (simp add: script_invoice_details_def sublist_code)
  from d [OF this]
  show \<open>sublist (''<span class="label">Rental Period:</span><span>'' @
                  show_int (days b) @ '' day(s)</span>'')
           (script_generateInvoiceHTML fmt b)\<close> by simp
  have \<open>sublist [''<span class="label">Subtotal ('', show_int (days b),
                  '' days):</span>'', ''<span>$'', toFixed2 (subtotal b), ''</span>'']
          (script_invoice_pricing b)\<close>
    by (simp add: script_invoice_pricing_def sublist_code)
  from p [OF this]
  show \<open>sublist (''<span class="label">Subtotal ('' @ show_int (days b) @
                  '' days):</span><span>$'' @ toFixed2 (subtotal b) @ ''</span>'')
           (script_generateInvoiceHTML fmt b)\<close> by simp
  have \<open>sublist [''<span class="label">Tax (8%):</span>'', ''<span>$'',
                  toFixed2 (tax b), ''</span>'']
          (script_invoice_pricing b)\<close>
    by (simp add: script_invoice_pricing_def sublist_code)
  from p [OF this]
  show \<open>sublist (''<span class="label">Tax (8%):</span><span>$'' @
                  toFixed2 (tax b) @ ''</span>'')
           (script_generateInvoiceHTML fmt b)\<close> by simp
  have "sublist [''<span>Total Amount:</span>'', ''<span>$'', toFixed2 (total b), ''</span>'']
          (script_invoice_pricing b)"
    by (simp add: script_invoice_pricing_def sublist_code)
  from p [OF this]
  show \<open>sublist (''<span>Total Amount:</span><span>$'' @ toFixed2 (total b) @ ''</span>'')
           (script_generateInvoiceHTML fmt b)\<close> by simp
qed

subsection \<open>Customer text in the document\<close>

lemma invoice_embeds_customer_text:
  shows "sublist (''<h2>Thank you for your booking, '' @ firstName b @ ''!</h2>'')
           (generateInvoiceHTML fmt b)"
    and "sublist (''<span>'' @ firstName b @ '' '' @ lastName b @ ''</span>'')
           (generateInvoiceHTML fmt b)"
    and "additionalInfo b \<noteq> [] \<Longrightarrow>
         sublist (''<p>'' @ additionalInfo b @ ''</p>'') (generateInvoiceHTML fmt b)"
proof -
  obtain d sub tx tot where
    pr: "pricing (pickupDate b) (returnDate b) (pricePerDay b) = (d, sub, tx, tot)"
    by (cases "pricing (pickupDate b) (returnDate b) (pricePerDay b)") auto
  have pieces: "invoice_pieces fmt b =
      invoice_head @ invoice_greeting b @ invoice_booking_information fmt b d @
      invoice_customer_information b @ invoice_pricing b d sub tx tot @
      invoice_additional_information b @ invoice_footer"
    by (simp add: invoice_pieces_def pr)
  have g: "sublist xs (invoice_greeting b) \<Longrightarrow>
           sublist (concat xs) (generateInvoiceHTML fmt b)" for xs
  proof -
    assume "sublist xs (invoice_greeting b)"
    then have "sublist xs (invoice_pieces fmt b)"
      unfolding pieces by (rule sublist_in_append)
    from sublist_concat [OF this] show ?thesis by (simp add: generateInvoiceHTML_def)
  qed
  have c: "sublist xs (invoice_customer_information b) \<Longrightarrow>
           sublist (concat xs) (generateInvoiceHTML fmt b)" for xs
  proof -
    assume "sublist xs (invoice_customer_information b)"
    then have "sublist xs (invoice_pieces fmt b)"
      unfolding pieces by (metis append.assoc sublist_in_append)
    from sublist_concat [OF this] show ?thesis by (simp add: generateInvoiceHTML_def)
  qed
  have a: "sublist xs (invoice_additional_information b) \<Longrightarrow>
           sublist (concat xs) (generateInvoiceHTML fmt b)" for xs
  proof -
    assume "sublist xs (invoice_additional_information b)"
    then have "sublist xs (invoice_pieces fmt b)"
      unfolding pieces by (metis append.assoc sublist_in_append)
    from sublist_concat [OF this] show ?thesis by (simp add: generateInvoiceHTML_def)
  qed
  have "sublist [''<h2>Thank you for your booking, '', firstName b, ''!</h2>'']
          (invoice_greeting b)"
    by (simp add: invoice_greeting_def sublist_code)
  from g [OF this]
  show "sublist (''<h2>Thank you for your booking, '' @ firstName b @ ''!</h2>'')
          (generateInvoiceHTML fmt b)" by simp
  have "sublist [''<span>'', firstName b, '' '', lastName b, ''</span>'']
          (invoice_customer_information b)"
    by (simp add: invoice_customer_information_def sublist_code)
  from c [OF this]
  show "sublist (''<span>'' @ firstName b @ '' '' @ lastName b @ ''</span>'')
          (generateInvoiceHTML fmt b)" by simp
  show "sublist (''<p>'' @ additionalInfo b @ ''</p>'') (generateInvoiceHTML fmt b)"
    if "additionalInfo b \<noteq> []"
  proof -
    from that have "sublist [''<p>'', additionalInfo b, ''</p>'']
        (invoice_additional_information b)"
      by (simp add: invoice_additional_information_def sublist_code)
    from a [OF this] show ?thesis by simp
  qed
qed

text \<open>
  C8 fails on the invoice of the first server: nothing is escaped. A request whose
  names and additional information carry markup is booked as it comes, and the invoice
  of that booking contains the markup verbatim.
\<close>

theorem invoice_embeds_markup:
  "fst (post_bookings ev0 rq_markup w0) = Booked b_markup \<and>
   sublist ''<h2>Thank you for your booking, <script>alert(1)</script>!</h2>''
     (generateInvoiceHTML fmt b_markup) \<and>
   sublist ''<span><script>alert(1)</script> <b>Obi</b></span>''
     (generateInvoiceHTML fmt b_markup) \<and>
   sublist ''<p><img src=x onerror=alert(2)></p>'' (generateInvoiceHTML fmt b_markup)"
proof -
  have 2: "find_car (rq_carId rq_markup) (cars initialInventory) = Some rav4"
    by (simp add: rq_markup_def rq0_def initialInventory_def find_rav4)
  have 4: "rq_pickupDate rq_markup < rq_returnDate rq_markup"
    by (simp add: rq_markup_def rq0_def)
  have 5: "verify_payment ev0 (rq_paymentIntentId rq_markup) = Inr ''pending''"
    by (simp add: verify_payment_def rq_markup_def rq0_def)
  have 6: "new_booking ev0 rq_markup rav4
             (pricing 1717200000000 1717459200000 70) ''pending'' = b_markup"
    unfolding pricing_example
    by (simp add: new_booking_def ev0_def rq_markup_def rq0_def show_int_example
          b_markup_def b0_def truthy_def car_fields)
  have 7: "rq_pickupDate rq_markup = 1717200000000"
    "rq_returnDate rq_markup = 1717459200000" "rq_carId rq_markup = Some 2"
    by (simp_all add: rq_markup_def rq0_def)
  have booked: "fst (post_bookings ev0 rq_markup w0) = Booked b_markup"
    unfolding post_bookings_success [OF example_preconditions(1) 2 example_preconditions(4) 4 5]
      7 car_fields 6
    by simp
  have f: "firstName b_markup = ''<script>alert(1)</script>''"
    "lastName b_markup = ''<b>Obi</b>''"
    "additionalInfo b_markup = ''<img src=x onerror=alert(2)>''"
    by (simp_all add: b_markup_def)
  have n: "additionalInfo b_markup \<noteq> []" by (simp add: f)
  from invoice_embeds_customer_text(1,2) [of b_markup fmt]
    invoice_embeds_customer_text(3) [OF n, of fmt] booked
  show ?thesis by (simp add: f)
qed

text \<open>
  On the second server \<open>escapeHtml\<close> leaves none of the characters it replaces, and the
  invoice passes the additional information through it. The names are embedded as
  they stand in the booking record; on that server they reach the record through the
  \<open>escape\<close> sanitizer of the validation chain.
\<close>

lemma escapeHtml_map_safe:
  "set (escapeHtml_map ch) \<inter> {CHR ''<'', CHR ''>'', CHR 0x22, CHR 0x27} = {}"
  by (simp add: escapeHtml_map_def)

lemma escapeHtml_safe:
  "set (escapeHtml t) \<inter> {CHR ''<'', CHR ''>'', CHR 0x22, CHR 0x27} = {}"
proof (induction t)
  case Nil
  then show ?case by (simp add: escapeHtml_def)
next
  case (Cons ch t)
  have "escapeHtml (ch # t) = escapeHtml_map ch @ escapeHtml t"
    by (simp add: escapeHtml_def)
  with Cons escapeHtml_map_safe [of ch] show ?case
    by (simp add: Int_Un_distrib2)
qed

lemma script_invoice_customer_text:
  shows "additionalInfo b \<noteq> [] \<Longrightarrow>
         sublist (''<span>'' @ escapeHtml (additionalInfo b) @ ''</span>'')
           (script_generateInvoiceHTML fmt b)"
    and "sublist (''<span>'' @ firstName b @ '' '' @ lastName b @ ''</span>'')
           (script_generateInvoiceHTML fmt b)"
proof -
  show "sublist (''<span>'' @ escapeHtml (additionalInfo b) @ ''</span>'')
          (script_generateInvoiceHTML fmt b)" if "additionalInfo b \<noteq> []"
  proof -
    from that have "sublist [''<span>'', escapeHtml (additionalInfo b), ''</span>'']
        (script_invoice_additional_info b)"
      by (simp add: script_invoice_additional_info_def sublist_code)
    then have "sublist [''<span>'', escapeHtml (additionalInfo b), ''</span>'']
        (script_invoice_pieces fmt b)"
      unfolding script_invoice_pieces_def by (metis append.assoc sublist_in_append)
    from sublist_concat [OF this] show ?thesis
      by (simp add: script_generateInvoiceHTML_def)
  qed
  have "sublist [''<span>'', firstName b, '' '', lastName b, ''</span>'']
        (script_invoice_details fmt b)"
    by (simp add: script_invoice_details_def sublist_code)
  then have "sublist [''<span>'', firstName b, '' '', lastName b, ''</span>'']
        (script_invoice_pieces fmt b)"
    unfolding script_invoice_pieces_def by (rule sublist_in_append)
  from sublist_concat [OF this]
  show "sublist (''<span>'' @ firstName b @ '' '' @ lastName b @ ''</span>'')
          (script_generateInvoiceHTML fmt b)"
    by (simp add: script_generateInvoiceHTML_def)
qed

section \<open>Pricing\<close>

text \<open>
  C6, as stated, fails where it asks for \<open>tax = round(subtotal * 0.08, 2)\<close>
  exactly: the tax is the double product \<open>subtotal * 0.08\<close>, stored as computed. For
  one day at 70 it is 5.6000000000000005 (6305039478318695 / 2^50), which is neither
  5.6 nor the double nearest to 5.6.
\<close>

theorem tax_not_rounded_counterexample:
  "pricing 1717200000000 1717286400000 70 =
     (1, 70, 6305039478318695 / 1125899906842624, double_of (756 / 10)) \<and>
   double_of (56 / 10) = 3152519739159347 / 562949953421312 \<and>
   (6305039478318695 / 1125899906842624 :: rat) \<noteq> 3152519739159347 / 562949953421312 \<and>
   (6305039478318695 / 1125899906842624 :: rat) \<noteq> 56 / 10"
proof -
  have "pricing 1717200000000 1717286400000 70 =
     (1, 70, 6305039478318695 / 1125899906842624, double_of (756 / 10))"
    by code_simp
  moreover have "double_of (56 / 10) = 3152519739159347 / 562949953421312"
    by code_simp
  ultimately show ?thesis by simp
qed

text \<open>
  C6, amended. Pricing is a function of the two dates and the daily rate. For a return
  date after the pickup date (less than \<open>2^53\<close> ms apart) and a positive rate with
  \<open>days * rate\<close> below \<open>10^13\<close>: \<open>days\<close> is exactly the ceiling of the difference
  over one day, \<open>subtotal\<close> is exactly \<open>days * rate\<close>, \<open>tax\<close> is the double product
  of the subtotal and 0.08 and \<open>total\<close> the double sum of subtotal and tax; the tax lies
  within \<open>subtotal / 2^56\<close> of the exact 8 percent, and rounded to cents (as \<open>toFixed(2)\<close>
  prints them) tax and total are exactly 8 and 108 percent of the subtotal. In the
  example (70 per day, 2024-06-01 to 2024-06-04) the result is 3 days, 210, 16.8 and
  226.8 as doubles, printed 16.80 and 226.80, and the booking takes the car's
  \<open>available\<close> from 3 to 2.
\<close>

theorem pricing_values:
  "(pickup < returnD \<and> returnD - pickup < 2 ^ 53 \<and> 0 < rate \<and>
    \<lceil>(of_int (returnD - pickup) :: rat) / 86400000\<rceil> * rate < 10 ^ 13 \<and>
    pricing pickup returnD rate = (d, sub, tx, tot) \<longrightarrow>
      d = \<lceil>(of_int (returnD - pickup) :: rat) / 86400000\<rceil> \<and>
      sub = of_int (d * rate) \<and>
      tx = js_mul sub tax_rate \<and>
      tot = js_add sub tx \<and>
      \<bar>tx - sub * 8 / 100\<bar> \<le> sub / 2 ^ 56 \<and>
      cents tx = 8 * (d * rate) \<and>
      cents tot = 108 * (d * rate)) \<and>
   pricing 1717200000000 1717459200000 70 =
     (3, 210, double_of (168 / 10), double_of (2268 / 10)) \<and>
   toFixed2 (double_of (168 / 10)) = ''16.80'' \<and>
   toFixed2 (double_of (2268 / 10)) = ''226.80'' \<and>
   available rav4 = 3 \<and>
   post_bookings ev0 rq0 w0 =
     (Booked b0,
      \<lparr> inventoryFile = Some \<lparr> cars = [camry, rav4\<lparr>available := 2\<rparr>], bookings = [b0] \<rparr>,
        loads = 1, saves = 1 \<rparr>)"
proof -
  have general: "d = \<lceil>(of_int (returnD - pickup) :: rat) / 86400000\<rceil> \<and>
      sub = of_int (d * rate) \<and> tx = js_mul sub tax_rate \<and> tot = js_add sub tx \<and>
      \<bar>tx - sub * 8 / 100\<bar> \<le> sub / 2 ^ 56 \<and>
      cents tx = 8 * (d * rate) \<and> cents tot = 108 * (d * rate)"
    if h: "pickup < returnD" "returnD - pickup < 2 ^ 53" "0 < rate"
      "\<lceil>(of_int (returnD - pickup) :: rat) / 86400000\<rceil> * rate < 10 ^ 13"
      "pricing pickup returnD rate = (d, sub, tx, tot)"
  proof -
    from h(5) have d: "d = rental_days pickup returnD"
      and sub: "sub = js_mul (of_int d) (of_int rate)"
      and tx: "tx = js_mul sub tax_rate" and tot: "tot = js_add sub tx"
      by (auto simp: pricing_def Let_def)
    from d rental_days_exact [OF h(1,2)]
    have d': "d = \<lceil>(of_int (returnD - pickup) :: rat) / 86400000\<rceil>" by simp
    from d rental_days_pos [OF h(1,2)] have dpos: "0 < d" by simp
    with h(3) have s: "0 < d * rate" by simp
    from h(4) d' have s13: "d * rate < 10 ^ 13" by simp
    then have "\<bar>d * rate\<bar> < 2 ^ 53" using s by simp
    from double_of_int [OF this] have sub': "sub = of_int (d * rate)"
      by (simp add: sub js_mul_def)
    from tax_close [OF s] have c: "\<bar>tx - sub * 8 / 100\<bar> \<le> sub / 2 ^ 56"
      unfolding tx sub' .
    from tax_total_cents [OF s s13]
    have "cents tx = 8 * (d * rate)" "cents tot = 108 * (d * rate)"
      unfolding tot tx sub' .
    with d' sub' tx tot c show ?thesis by blast
  qed
  with pricing_example toFixed2_tax toFixed2_total car_fields(3) post_bookings_example
  show ?thesis by blast
qed

theorem pricing_values_witness:
  "pricing 1717200000000 1717286400000 70 =
     (1, 70, 6305039478318695 / 1125899906842624, double_of (756 / 10)) \<and>
   cents (6305039478318695 / 1125899906842624) = 560 \<and>
   cents (double_of (756 / 10)) = 7560"
proof -
  have p: "pricing 1717200000000 1717286400000 70 =
     (1, 70, 6305039478318695 / 1125899906842624, double_of (756 / 10))"
    by code_simp
  have h: "(1717200000000::int) < 1717286400000 \<and>
    (1717286400000::int) - 1717200000000 < 2 ^ 53 \<and> (0::int) < 70 \<and>
    \<lceil>(of_int (1717286400000 - 1717200000000) :: rat) / 86400000\<rceil> * 70 < 10 ^ 13"
    by simp
  have "cents (6305039478318695 / 1125899906842624) = 8 * (1 * 70) \<and>
        cents (double_of (756 / 10)) = 108 * (1 * 70)"
    using pricing_values [of 1717200000000 1717286400000 70 1 70
      "6305039478318695 / 1125899906842624" "double_of (756 / 10)"] h p
    by blast
  with p show ?thesis by simp
qed

section \<open>Concurrent calls\<close>

text \<open>The two steps, run back to back, are the handler.\<close>

lemma post_bookings_two_steps:
  "post_bookings ev rq w =
     (case post_bookings_begin ev rq w of (pr, w1) \<Rightarrow> finish_call ev pr w1)"
  by (auto simp: post_bookings_def post_bookings_begin_def finish_call_def
        post_bookings_resume_def post_bookings_complete_def verify_payment_def Let_def
      split: prod.splits option.splits)

lemma pricing_camry:
  "pricing 1717200000000 1717459200000 60 =
     (3, 180, double_of (144 / 10), double_of (1944 / 10))"
  by code_simp

lemma find_camry: "find_car (Some 1) [camry, rav4] = Some camry"
  by (simp add: find_car_def car_fields)

lemma camry_fields: "available camry = 1" "price camry = 60" "name camry = ''Toyota Camry''"
  by (simp_all add: camry_def)

lemma show_int_later:
  "show_int 1717000000050 = ''1717000000050''" "show_int 1717000000020 = ''1717000000020''"
  by (simp_all add: show_int_def show_nat.simps)

lemma begin_A:
  "post_bookings_begin ev_paid rq_A w0 =
     (Awaiting \<lparr> pd_request = rq_A, pd_inventory = initialInventory, pd_car = camry,
                 pd_priced = (3, 180, double_of (144 / 10), double_of (1944 / 10)),
                 pd_reference = ''pi_A'' \<rparr>,
      w0\<lparr>loads := 1\<rparr>)"
  unfolding post_bookings_begin_def loadInventory_existing [OF example_preconditions(1)]
  by (simp add: initialInventory_def rq_A_def rq0_def find_camry camry_fields pricing_camry
        ev_paid_def w0_def)

lemma begin_B:
  "post_bookings_begin ev_later rq_B (w0\<lparr>loads := 1\<rparr>) =
     (Awaiting \<lparr> pd_request = rq_B, pd_inventory = initialInventory, pd_car = camry,
                 pd_priced = (3, 180, double_of (144 / 10), double_of (1944 / 10)),
                 pd_reference = ''pi_B'' \<rparr>,
      w0\<lparr>loads := 2\<rparr>)"
proof -
  have "inventoryFile (w0\<lparr>loads := 1\<rparr>) = Some initialInventory" by (simp add: w0_def)
  note l = loadInventory_existing [OF this]
  show ?thesis
    unfolding post_bookings_begin_def l
    by (simp add: initialInventory_def rq_B_def rq0_def find_camry camry_fields pricing_camry
        ev_later_def ev_paid_def w0_def)
qed

lemma new_booking_A:
  "new_booking ev_paid rq_A camry (3, 180, double_of (144 / 10), double_of (1944 / 10))
     ''succeeded'' = b_A"
  by (simp add: new_booking_def ev_paid_def ev0_def rq_A_def rq0_def show_int_example
        b_A_def b0_def truthy_def car_fields camry_fields)

lemma new_booking_B:
  "new_booking ev_later rq_B camry (3, 180, double_of (144 / 10), double_of (1944 / 10))
     ''succeeded'' = b_B"
  by (simp add: new_booking_def ev_later_def ev_paid_def ev0_def rq_B_def rq0_def
        show_int_later b_B_def b_A_def b0_def truthy_def car_fields camry_fields)

lemma new_booking_between:
  "new_booking ev_between rq0 rav4 (3, 210, double_of (168 / 10), double_of (2268 / 10))
     ''pending'' = b_between"
  by (simp add: new_booking_def ev_between_def ev_paid_def ev0_def rq0_def show_int_later
        b_between_def b0_def truthy_def car_fields)

lemma retrieve_paid:
  "paymentIntents_retrieve ev_paid x = Some ''succeeded''"
  "paymentIntents_retrieve ev_later x = Some ''succeeded''"
  by (simp_all add: ev_paid_def ev_later_def)

lemma resume_A:
  "post_bookings_resume ev_paid
     \<lparr> pd_request = rq_A, pd_inventory = initialInventory, pd_car = camry,
       pd_priced = (3, 180, double_of (144 / 10), double_of (1944 / 10)),
       pd_reference = ''pi_A'' \<rparr> w =
   (Booked b_A,
    saveInventory \<lparr> cars = [camry\<lparr>available := 0\<rparr>, rav4], bookings = [b_A] \<rparr> w)"
proof -
  have i: "rq_carId rq_A = Some 1" by (simp add: rq_A_def)
  show ?thesis
    by (simp add: post_bookings_resume_def retrieve_paid post_bookings_complete_def
          new_booking_A [simplified] i initialInventory_def car_fields camry_fields)
qed

lemma resume_B:
  "post_bookings_resume ev_later
     \<lparr> pd_request = rq_B, pd_inventory = initialInventory, pd_car = camry,
       pd_priced = (3, 180, double_of (144 / 10), double_of (1944 / 10)),
       pd_reference = ''pi_B'' \<rparr> w =
   (Booked b_B,
    saveInventory \<lparr> cars = [camry\<lparr>available := 0\<rparr>, rav4], bookings = [b_B] \<rparr> w)"
proof -
  have i: "rq_carId rq_B = Some 1" by (simp add: rq_B_def)
  show ?thesis
    by (simp add: post_bookings_resume_def retrieve_paid post_bookings_complete_def
          new_booking_B [simplified] i initialInventory_def car_fields camry_fields)
qed

text \<open>
  C2 fails in the first server: nothing serializes two calls, and with a payment to
  verify a call is suspended between its availability check and its save. Two paying
  customers ask for the one available Camry; B's request arrives while A's waits for
  the payment collaborator (A begins, B begins, A resumes, B resumes). Both calls
  answer with a booking, where the claim asks for one booking and one CarUnavailable;
  the second save overwrites the first, so the store ends with \<open>available = 0\<close> and
  B's booking only.
\<close>

theorem interleaved_calls_both_booked:
  "two_calls_interleaved ev_paid rq_A ev_later rq_B w0 =
     (Booked b_A, Booked b_B,
      \<lparr> inventoryFile = Some \<lparr> cars = [camry\<lparr>available := 0\<rparr>, rav4], bookings = [b_B] \<rparr>,
        loads = 2, saves = 2 \<rparr>)"
proof -
  have "two_calls_interleaved ev_paid rq_A ev_later rq_B w0 =
     (Booked b_A, Booked b_B,
      saveInventory \<lparr> cars = [camry\<lparr>available := 0\<rparr>, rav4], bookings = [b_B] \<rparr>
        (saveInventory \<lparr> cars = [camry\<lparr>available := 0\<rparr>, rav4], bookings = [b_A] \<rparr>
           (w0\<lparr>loads := 2\<rparr>)))"
    unfolding two_calls_interleaved_def
    by (simp only: begin_A begin_B finish_call_def progress.case resume_A resume_B
          Let_def prod.case)
  then show ?thesis by (simp add: saveInventory_def w0_def)
qed

text \<open>
  The defect is the suspension between check and save, not the handler's logic.
  Without a payment to verify the handler is never suspended, and then the
  interleaved schedule of two calls is the two calls one after the other.
\<close>

lemma begin_without_payment:
  assumes "rq_paymentIntentId rq = None \<or> rq_paymentIntentId rq = Some [] \<or>
           \<not> stripe_configured ev"
  shows "\<exists>r w1. post_bookings_begin ev rq w = (Responded r, w1)"
  using assms
  by (auto simp: post_bookings_begin_def Let_def split: prod.splits option.splits)

lemma interleaved_without_payment:
  assumes "rq_paymentIntentId rqA = None \<or> rq_paymentIntentId rqA = Some [] \<or>
           \<not> stripe_configured evA"
  shows "two_calls_interleaved evA rqA evB rqB w =
           (case post_bookings evA rqA w of
              (ra, w1) \<Rightarrow> (case post_bookings evB rqB w1 of (rb, w2) \<Rightarrow> (ra, rb, w2)))"
proof -
  from begin_without_payment [OF assms] obtain r w1
    where a: "post_bookings_begin evA rqA w = (Responded r, w1)" by blast
  then have pa: "post_bookings evA rqA w = (r, w1)"
    by (simp add: post_bookings_two_steps finish_call_def)
  obtain pb w2 where b: "post_bookings_begin evB rqB w1 = (pb, w2)"
    by (cases "post_bookings_begin evB rqB w1")
  then have pb: "post_bookings evB rqB w1 = finish_call evB pb w2"
    by (simp add: post_bookings_two_steps)
  show ?thesis
    by (simp add: two_calls_interleaved_def a b pa pb finish_call_def split: prod.splits)
qed

text \<open>
  And calls that run one after the other, each from its load to its save, do what
  the claim asks: against a car with \<open>available = 1\<close>, the first call that passes the
  date and payment checks is booked, every later call is refused with CarUnavailable,
  and the store ends with that one booking added and the car sold out.
\<close>

lemma find_car_after_update:
  "find_car i cs = Some c \<Longrightarrow> car_id (f c) = car_id c \<Longrightarrow>
   find_car i (update_car i f cs) = Some (f c)"
  by (induction cs) (auto simp: find_car_def split: if_splits)

lemma post_bookings_not_booked:
  assumes "inventoryFile w = Some iv" and "post_bookings ev rq w = (r, w')"
    and "\<not> is_Booked r"
  shows "w' = w\<lparr>loads := Suc (loads w)\<rparr>"
  using assms
  by (auto simp: post_bookings_def loadInventory_existing Let_def is_Booked_def
           split: option.splits if_splits sum.splits)

lemma sold_out_rejects:
  assumes "inventoryFile w = Some iv" and "find_car (rq_carId rq) (cars iv) = Some c"
    and "available c \<le> 0"
  shows "post_bookings ev rq w = (CarUnavailable, w\<lparr>loads := Suc (loads w)\<rparr>)"
  using assms by (simp add: post_bookings_def loadInventory_existing)

lemma run_serial_sold_out:
  assumes "inventoryFile w = Some iv" and "find_car i (cars iv) = Some c"
    and "available c \<le> 0" and "list_all (\<lambda>(ev, rq). rq_carId rq = i) calls"
  shows "fst (run_serial calls w) = replicate (length calls) CarUnavailable \<and>
         inventoryFile (snd (run_serial calls w)) = Some iv"
  using assms
proof (induction calls arbitrary: w)
  case Nil
  then show ?case by simp
next
  case (Cons call calls)
  obtain ev rq where call: "call = (ev, rq)" by (cases call)
  with Cons.prems(4) have i: "rq_carId rq = i"
    and rest: "list_all (\<lambda>(ev, rq). rq_carId rq = i) calls"
    by simp_all
  from Cons.prems(2) i have f: "find_car (rq_carId rq) (cars iv) = Some c" by simp
  note step = sold_out_rejects [OF Cons.prems(1) f Cons.prems(3), of ev]
  have "inventoryFile (w\<lparr>loads := Suc (loads w)\<rparr>) = Some iv" using Cons.prems(1) by simp
  from Cons.IH [OF this Cons.prems(2,3) rest] show ?case
    by (auto simp: call step split: prod.splits)
qed

lemma serial_calls_exactly_one:
  assumes "inventoryFile w = Some iv" and "find_car i (cars iv) = Some c"
    and "available c = 1" and "rq_carId rq = i"
    and "rq_pickupDate rq < rq_returnDate rq"
    and "verify_payment ev (rq_paymentIntentId rq) = Inr status"
    and "list_all (\<lambda>(ev, rq). rq_carId rq = i) calls"
  shows "\<exists>b w'. run_serial ((ev, rq) # calls) w =
                   (Booked b # replicate (length calls) CarUnavailable, w') \<and>
           length (filter is_Booked (fst (run_serial ((ev, rq) # calls) w))) = 1 \<and>
           inventoryFile w' =
             Some (iv\<lparr>cars := update_car i (\<lambda>k. k\<lparr>available := 0\<rparr>) (cars iv),
                     bookings := bookings iv @ [b]\<rparr>)"
proof -
  let ?f = "\<lambda>k. k\<lparr>available := available k - 1\<rparr>"
  let ?b = "new_booking ev rq c (pricing (rq_pickupDate rq) (rq_returnDate rq) (price c)) status"
  let ?iv = "iv\<lparr>cars := update_car (rq_carId rq) ?f (cars iv), bookings := bookings iv @ [?b]\<rparr>"
  let ?w1 = "\<lparr> inventoryFile = Some ?iv, loads = Suc (loads w), saves = Suc (saves w) \<rparr>"
  from assms(2,4) have f: "find_car (rq_carId rq) (cars iv) = Some c" by simp
  have av: "0 < available c" using assms(3) by simp
  have step: "post_bookings ev rq w = (Booked ?b, ?w1)"
    by (rule post_bookings_success [OF assms(1) f av assms(5,6)])
  have w1: "inventoryFile ?w1 = Some ?iv" by simp
  have "find_car i (update_car i ?f (cars iv)) = Some (?f c)"
    by (rule find_car_after_update [OF assms(2)]) simp
  then have f': "find_car i (cars ?iv) = Some (?f c)" by (simp add: assms(4))
  have sold: "available (?f c) \<le> 0" using assms(3) by simp
  from run_serial_sold_out [OF w1 f' sold assms(7)]
  have rest: "fst (run_serial calls ?w1) = replicate (length calls) CarUnavailable"
    and fl: "inventoryFile (snd (run_serial calls ?w1)) = Some ?iv"
    by simp_all
  have upd: "update_car i ?f cs = update_car i (\<lambda>k. k\<lparr>available := 0\<rparr>) cs"
    if "find_car i cs = Some c" for cs
    using that assms(3)
    by (induction cs) (auto simp: find_car_def split: if_splits)
  have run: "run_serial ((ev, rq) # calls) w =
      (Booked ?b # replicate (length calls) CarUnavailable, snd (run_serial calls ?w1))"
    using rest by (cases "run_serial calls ?w1") (simp add: step)
  have count: "length (filter is_Booked (fst (run_serial ((ev, rq) # calls) w))) = 1"
    unfolding run by (simp add: is_Booked_def)
  from fl have "inventoryFile (snd (run_serial calls ?w1)) =
      Some (iv\<lparr>cars := update_car i (\<lambda>k. k\<lparr>available := 0\<rparr>) (cars iv),
              bookings := bookings iv @ [?b]\<rparr>)"
    by (simp add: assms(4) upd [OF assms(2)])
  with run count show ?thesis by blast
qed

text \<open>
  Calls that fail the date or the payment check before the first booking leave the
  store as it was, so in every serial run at most one call is booked and all calls
  after it are refused.
\<close>

lemma one_then_unavailable_count:
  "one_then_unavailable rs \<Longrightarrow> length (filter is_Booked rs) \<le> 1"
proof (induction rs)
  case Nil
  then show ?case by simp
next
  case (Cons r rs)
  show ?case
  proof (cases "is_Booked r")
    case True
    with Cons.prems have "list_all (\<lambda>x. x = CarUnavailable) rs" by simp
    then have "filter is_Booked rs = []"
      by (auto simp: list_all_iff filter_empty_conv is_Booked_def)
    with True show ?thesis by simp
  next
    case False
    with Cons show ?thesis by simp
  qed
qed

lemma serial_calls_at_most_one:
  assumes "inventoryFile w = Some iv" and "find_car i (cars iv) = Some c"
    and "available c = 1" and "list_all (\<lambda>(ev, rq). rq_carId rq = i) calls"
  shows "one_then_unavailable (fst (run_serial calls w)) \<and>
         length (filter is_Booked (fst (run_serial calls w))) \<le> 1"
proof -
  have "one_then_unavailable (fst (run_serial calls w))"
    using assms
  proof (induction calls arbitrary: w)
    case Nil
    then show ?case by simp
  next
    case (Cons call calls)
    obtain ev rq where call: "call = (ev, rq)" by (cases call)
    with Cons.prems(4) have i: "rq_carId rq = i"
      and rest: "list_all (\<lambda>(ev, rq). rq_carId rq = i) calls"
      by simp_all
    obtain r w1 where step: "post_bookings ev rq w = (r, w1)" by (cases "post_bookings ev rq w")
    show ?case
    proof (cases "is_Booked r")
      case False
      from post_bookings_not_booked [OF Cons.prems(1) step False]
      have "inventoryFile w1 = Some iv" using Cons.prems(1) by simp
      from Cons.IH [OF this Cons.prems(2,3) rest] False show ?thesis
        by (auto simp: call step split: prod.splits)
    next
      case True
      then obtain b where b: "r = Booked b" by (cases r) (simp_all add: is_Booked_def)
      from Cons.prems(2) i have f: "find_car (rq_carId rq) (cars iv) = Some c" by simp
      from step b post_bookings_Booked [OF Cons.prems(1), of ev rq b w1]
      obtain status where s: "verify_payment ev (rq_paymentIntentId rq) = Inr status"
        "rq_pickupDate rq < rq_returnDate rq"
        using f by auto
      from serial_calls_exactly_one [OF Cons.prems(1,2,3) i s(2,1) rest]
      have "list_all (\<lambda>x. x = CarUnavailable) (tl (fst (run_serial ((ev, rq) # calls) w)))"
        by (auto simp: list_all_length)
      with True show ?thesis
        by (auto simp: call step split: prod.splits)
    qed
  qed
  with one_then_unavailable_count show ?thesis by blast
qed

text \<open>The two paying customers, one after the other: Ann is booked, Bob is refused.\<close>

lemma serial_calls_example:
  "fst (run_serial [(ev_paid, rq_A), (ev_later, rq_B)] w0) = [Booked b_A, CarUnavailable]"
proof -
  have f: "find_car (Some 1) (cars initialInventory) = Some camry"
    by (simp add: initialInventory_def find_camry)
  have c: "list_all (\<lambda>(ev, rq). rq_carId rq = Some 1) [(ev_later, rq_B)]"
    by (simp add: rq_B_def)
  have iA: "rq_carId rq_A = Some 1" by (simp add: rq_A_def)
  have dA: "rq_pickupDate rq_A < rq_returnDate rq_A" by (simp add: rq_A_def rq0_def)
  have vA: "verify_payment ev_paid (rq_paymentIntentId rq_A) = Inr ''succeeded''"
    by (simp add: verify_payment_def rq_A_def ev_paid_def)
  from serial_calls_exactly_one [OF example_preconditions(1) f camry_fields(1) iA dA vA c]
  obtain b where b: "fst (run_serial [(ev_paid, rq_A), (ev_later, rq_B)] w0) =
      [Booked b, CarUnavailable]"
    by auto
  have fA: "find_car (rq_carId rq_A) (cars initialInventory) = Some camry"
    by (simp add: iA f)
  have pA: "pricing (rq_pickupDate rq_A) (rq_returnDate rq_A) (price camry) =
            (3, 180, double_of (144 / 10), double_of (1944 / 10))"
    by (simp add: rq_A_def rq0_def camry_fields pricing_camry)
  have av: "0 < available camry" by (simp add: camry_fields)
  have "fst (post_bookings ev_paid rq_A w0) = Booked b_A"
    unfolding post_bookings_success [OF example_preconditions(1) fA av dA vA] pA new_booking_A
    by simp
  with b show ?thesis by (auto split: prod.splits)
qed

subsection \<open>The store after a suspended call\<close>

text \<open>
  A call that runs from its load to its save without another call in between changes
  the store in two places only: the first car with the requested id (position \<open>k\<close>)
  has its \<open>available\<close> lowered by exactly one, every other field of it and every other
  car staying as they were, and the new booking is appended behind the bookings
  already there. Exactly one save has run.
\<close>

lemma uninterrupted_call_frame:
  assumes "inventoryFile w = Some iv" and "find_car (rq_carId rq) (cars iv) = Some c"
    and "0 < available c" and "rq_pickupDate rq < rq_returnDate rq"
    and "verify_payment ev (rq_paymentIntentId rq) = Inr status"
  shows "\<exists>k b. k < length (cars iv) \<and> cars iv ! k = c \<and>
           (\<forall>j<k. Some (car_id (cars iv ! j)) \<noteq> rq_carId rq) \<and>
           post_bookings ev rq w =
             (Booked b,
              \<lparr> inventoryFile =
                  Some (iv\<lparr>cars := (cars iv)[k := c\<lparr>available := available c - 1\<rparr>],
                          bookings := bookings iv @ [b]\<rparr>),
                loads = Suc (loads w), saves = Suc (saves w) \<rparr>)"
proof -
  let ?f = "\<lambda>k. k\<lparr>available := available k - 1\<rparr>"
  from find_car_update [OF assms(2), of ?f] obtain k where
    k: "k < length (cars iv)" "cars iv ! k = c"
       "\<forall>j<k. Some (car_id (cars iv ! j)) \<noteq> rq_carId rq"
       "update_car (rq_carId rq) ?f (cars iv) = (cars iv)[k := ?f c]"
    by blast
  from post_bookings_success [OF assms] k show ?thesis by auto
qed

text \<open>
  A call that was suspended saves the inventory it loaded before the suspension, with
  its own booking added: what the file holds at the time of the save does not enter.
\<close>

lemma resume_saves_loaded_copy:
  assumes "post_bookings_resume ev p w = (Booked b, w')"
  shows "inventoryFile w' =
           Some ((pd_inventory p)\<lparr>cars := update_car (rq_carId (pd_request p))
                     (\<lambda>k. k\<lparr>available := available k - 1\<rparr>) (cars (pd_inventory p)),
                   bookings := bookings (pd_inventory p) @ [b]\<rparr>)"
  using assms
  by (auto simp: post_bookings_resume_def post_bookings_complete_def saveInventory_def
        Let_def split: option.splits if_splits)

text \<open>
  The handler of the second server has no suspension between its load and its save,
  so every call of it runs as one step, with the same frame.
\<close>

lemma script_call_frame:
  assumes "valid_request lib r" and "inventoryFile w = Some iv"
    and "find_car (raw_carId r) (cars iv) = Some c" and "0 < available c"
    and "raw_pickupDate r = Some p" and "raw_returnDate r = Some t"
    and "0 < rental_days p t"
  shows "\<exists>k b. k < length (cars iv) \<and> cars iv ! k = c \<and>
           (\<forall>j<k. Some (car_id (cars iv ! j)) \<noteq> raw_carId r) \<and>
           script_post_bookings lib ev r w =
             (Booked b,
              \<lparr> inventoryFile =
                  Some (iv\<lparr>cars := (cars iv)[k := c\<lparr>available := available c - 1\<rparr>],
                          bookings := bookings iv @ [b]\<rparr>),
                loads = Suc (loads w), saves = Suc (saves w) \<rparr>)"
proof -
  let ?f = "\<lambda>k. k\<lparr>available := max 0 (available k - 1)\<rparr>"
  from find_car_update [OF assms(3), of ?f] obtain k where
    k: "k < length (cars iv)" "cars iv ! k = c"
       "\<forall>j<k. Some (car_id (cars iv ! j)) \<noteq> raw_carId r"
       "update_car (raw_carId r) ?f (cars iv) = (cars iv)[k := ?f c]"
    by blast
  have m: "max 0 (available c - 1) = available c - 1" using assms(4) by simp
  have "\<exists>b. script_post_bookings lib ev r w =
          (Booked b,
           \<lparr> inventoryFile =
               Some (iv\<lparr>cars := (cars iv)[k := c\<lparr>available := available c - 1\<rparr>],
                       bookings := bookings iv @ [b]\<rparr>),
             loads = Suc (loads w), saves = Suc (saves w) \<rparr>)"
    using assms k(4) m
    by (simp add: script_post_bookings_def script_loadInventory_existing sanitized_def
          saveInventory_def Let_def)
  with k(1,2,3) show ?thesis by blast
qed

lemma between_call:
  "post_bookings_begin ev_between rq0 (w0\<lparr>loads := 1\<rparr>) =
     (Responded (Booked b_between),
      \<lparr> inventoryFile =
          Some \<lparr> cars = [camry, rav4\<lparr>available := 2\<rparr>], bookings = [b_between] \<rparr>,
        loads = 2, saves = 1 \<rparr>)"
proof -
  have "inventoryFile (w0\<lparr>loads := 1\<rparr>) = Some initialInventory" by (simp add: w0_def)
  note l = loadInventory_existing [OF this]
  have u: "update_car (Some 2) (\<lambda>k. k\<lparr>available := available k - 1\<rparr>) [camry, rav4] =
           [camry, rav4\<lparr>available := 2\<rparr>]"
    by (simp add: car_fields)
  show ?thesis
    unfolding post_bookings_begin_def l
    by (simp add: initialInventory_def rq0_fields find_rav4 car_fields pricing_example
          post_bookings_complete_def new_booking_between [simplified] u saveInventory_def
          w0_def)
qed

text \<open>
  C10 fails in the first server for a call that is suspended at the payment query.
  Ann's paid request for the Camry is suspended; meanwhile Ada's request for a RAV4,
  with no payment to verify, runs to its end and is saved (RAV4 \<open>available = 2\<close>,
  one booking). Then Ann's call resumes, is successful, and saves the inventory it had
  loaded: besides lowering the Camry's \<open>available\<close> and adding its booking, it puts the
  RAV4 back to \<open>available = 3\<close> and removes Ada's booking from the store.
\<close>

theorem suspended_call_overwrites_store:
  "post_bookings_begin ev_paid rq_A w0 =
     (Awaiting \<lparr> pd_request = rq_A, pd_inventory = initialInventory, pd_car = camry,
                 pd_priced = (3, 180, double_of (144 / 10), double_of (1944 / 10)),
                 pd_reference = ''pi_A'' \<rparr>,
      w0\<lparr>loads := 1\<rparr>) \<and>
   post_bookings_begin ev_between rq0 (w0\<lparr>loads := 1\<rparr>) =
     (Responded (Booked b_between),
      \<lparr> inventoryFile =
          Some \<lparr> cars = [camry, rav4\<lparr>available := 2\<rparr>], bookings = [b_between] \<rparr>,
        loads = 2, saves = 1 \<rparr>) \<and>
   post_bookings_resume ev_paid
     \<lparr> pd_request = rq_A, pd_inventory = initialInventory, pd_car = camry,
       pd_priced = (3, 180, double_of (144 / 10), double_of (1944 / 10)),
       pd_reference = ''pi_A'' \<rparr>
     \<lparr> inventoryFile =
         Some \<lparr> cars = [camry, rav4\<lparr>available := 2\<rparr>], bookings = [b_between] \<rparr>,
       loads = 2, saves = 1 \<rparr> =
     (Booked b_A,
      \<lparr> inventoryFile =
          Some \<lparr> cars = [camry\<lparr>available := 0\<rparr>, rav4\<lparr>available := 3\<rparr>],
                 bookings = [b_A] \<rparr>,
        loads = 2, saves = 2 \<rparr>)"
proof -
  have r: "rav4\<lparr>available := 3\<rparr> = rav4" by (simp add: rav4_def)
  have s: "saveInventory iv \<lparr> inventoryFile = f, loads = 2, saves = 1 \<rparr> =
           \<lparr> inventoryFile = Some iv, loads = 2, saves = 2 \<rparr>" for iv f
    by (simp add: saveInventory_def)
  show ?thesis
    unfolding r resume_A s
    using begin_A between_call by blast
qed

end
